theory Spec2Isabelle
  imports Main
begin

section \<open>The world the setup script runs in\<close>

text \<open>
  \<^verbatim>\<open>setup.py\<close> is a sequential script whose whole behaviour is its effect on the
  interpreter's surroundings: the file system, the process environment, standard input,
  the log, the modules that can be imported and the child processes it starts. The
  embedding threads a record of these surroundings through every function and collects
  what the function does that can be seen from outside as a list of events. An exception
  is the left summand of the result; the world and the events are returned in both
  cases, so that what happened before an exception stays observable.
\<close>

datatype error =
    SyntaxError
  | EOFError
  | ImportError
  | CalledProcessError int
  | FileExistsError
  | FileNotFoundError
  | NotADirectoryError
  | IsADirectoryError
  | PermissionError

datatype level = INFO | WARNING | ERROR

text \<open>The value handed to \<^verbatim>\<open>json.dump\<close>; a file written by it holds its serialisation.\<close>

datatype json = JString string | JObject "(string \<times> json) list"

datatype content = Opaque | JsonDoc json

text \<open>A regular file has a content and permission bits; a directory has entries.\<close>

datatype node = Dir | File content nat

type_synonym filesystem = "(string \<times> node) list"

type_synonym environment = "(string \<times> string) list"

text \<open>
  What the script does that can be seen from outside, in order: a log record, a prompt
  written by \<^verbatim>\<open>input\<close>, an attempted import, and a child process with its exit code.
\<close>

datatype event =
    Log level string
  | Prompt string
  | Import string
  | Spawn "string list" int

text \<open>
  The file system is an association list from the path strings the program uses to
  nodes; the newest binding of a path wins. \<open>readonly\<close> lists the directories in which
  the operating system refuses to create entries. \<open>proc\<close> is the behaviour of child
  processes: from the command line, the inherited environment and the file system to an
  exit code and the file system the child leaves behind.
\<close>

record world =
  fs :: filesystem
  readonly :: "string list"
  default_mode :: nat
  environ :: environment
  pw_dir :: "string option"
  stdin :: "string list"
  version_info :: "nat \<times> nat"
  importable :: "string list"
  executable :: string
  proc :: "string list \<Rightarrow> environment \<Rightarrow> filesystem \<Rightarrow> int \<times> filesystem"

text \<open>An action returns its result or exception, the world it leaves and its events.\<close>

type_synonym 'a run = "(error + 'a) \<times> world \<times> event list"

type_synonym 'a action = "world \<Rightarrow> 'a run"

definition outcome :: "'a run \<Rightarrow> error + 'a" where
  "outcome r = fst r"

definition after :: "'a run \<Rightarrow> world" where
  "after r = fst (snd r)"

definition events :: "'a run \<Rightarrow> event list" where
  "events r = snd (snd r)"

definition ret :: "'a \<Rightarrow> 'a action" where
  "ret x w = (Inr x, w, [])"

definition raise_err :: "error \<Rightarrow> 'a action" where
  "raise_err e w = (Inl e, w, [])"

text \<open>Sequencing: an exception in the first action skips the rest.\<close>

definition andthen :: "'a action \<Rightarrow> ('a \<Rightarrow> 'b action) \<Rightarrow> 'b action" where
  "andthen m f w =
     (case m w of
        (Inl e, w1, evs) \<Rightarrow> (Inl e, w1, evs)
      | (Inr x, w1, evs) \<Rightarrow> (case f x w1 of (r, w2, evs') \<Rightarrow> (r, w2, evs @ evs')))"

text \<open>\<^verbatim>\<open>try: m  except ...: h\<close>; the handler re-raises what its clause does not match.\<close>

definition try_except :: "'a action \<Rightarrow> (error \<Rightarrow> 'a action) \<Rightarrow> 'a action" where
  "try_except m h w =
     (case m w of
        (Inl e, w1, evs) \<Rightarrow> (case h e w1 of (r, w2, evs') \<Rightarrow> (r, w2, evs @ evs'))
      | (Inr x, w1, evs) \<Rightarrow> (Inr x, w1, evs))"

definition logger :: "level \<Rightarrow> string \<Rightarrow> unit action" where
  "logger l msg w = (Inr (), w, [Log l msg])"

text \<open>\<^verbatim>\<open>input(prompt)\<close> writes the prompt, then reads a line; end of input raises.\<close>

definition input :: "string \<Rightarrow> string action" where
  "input prompt w =
     (case stdin w of
        [] \<Rightarrow> (Inl EOFError, w, [Prompt prompt])
      | l # ls \<Rightarrow> (Inr l, w\<lparr>stdin := ls\<rparr>, [Prompt prompt]))"

text \<open>\<^verbatim>\<open>__import__(name)\<close>: succeeds when the module can be imported.\<close>

definition import_module :: "string \<Rightarrow> unit action" where
  "import_module name w =
     (if name \<in> set (importable w) then (Inr (), w, [Import name])
      else (Inl ImportError, w, [Import name]))"

text \<open>\<^verbatim>\<open>subprocess.check_call(cmd)\<close>: waits for the child, raises on a non-zero exit.\<close>

definition check_call :: "string list \<Rightarrow> unit action" where
  "check_call cmd w =
     (let r = proc w cmd (environ w) (fs w);
          w1 = w\<lparr>fs := snd r\<rparr>
      in if fst r = 0 then (Inr (), w1, [Spawn cmd 0])
         else (Inl (CalledProcessError (fst r)), w1, [Spawn cmd (fst r)]))"

subsection \<open>Strings\<close>

text \<open>\<^verbatim>\<open>str.lower\<close> on the ASCII letters; no other character lowers to an ASCII letter.\<close>

definition lower_char :: "char \<Rightarrow> char" where
  "lower_char c =
     (if 65 \<le> (of_char c :: nat) \<and> (of_char c :: nat) \<le> 90
      then char_of ((of_char c :: nat) + 32) else c)"

definition lower :: "string \<Rightarrow> string" where
  "lower s = map lower_char s"

text \<open>\<^verbatim>\<open>s.replace(a, b)\<close> for single characters \<open>a\<close> and \<open>b\<close>.\<close>

definition replace :: "char \<Rightarrow> char \<Rightarrow> string \<Rightarrow> string" where
  "replace a b s = map (\<lambda>c. if c = a then b else c) s"

text \<open>\<^verbatim>\<open>sep.join(xs)\<close>.\<close>

fun join :: "string \<Rightarrow> string list \<Rightarrow> string" where
  "join sep [] = []"
| "join sep [x] = x"
| "join sep (x # y # ys) = x @ sep @ join sep (y # ys)"

text \<open>\<^verbatim>\<open>str(n)\<close> for a non-negative integer.\<close>

definition digit :: "nat \<Rightarrow> char" where
  "digit d = char_of (48 + d)"

function str_nat :: "nat \<Rightarrow> string" where
  "str_nat n = (if n < 10 then [digit n] else str_nat (n div 10) @ [digit (n mod 10)])"
  by pat_completeness auto
termination
  by (relation "measure id") auto

subsection \<open>Paths and the file system\<close>

text \<open>
  \<^verbatim>\<open>os.path.split\<close>: the tail is what follows the last slash; the head is what precedes
  it, without its trailing slashes unless it consists of slashes only.
\<close>

definition rstrip :: "char \<Rightarrow> string \<Rightarrow> string" where
  "rstrip c s = rev (dropWhile (\<lambda>x. x = c) (rev s))"

definition path_split :: "string \<Rightarrow> string \<times> string" where
  "path_split p =
     (let tail = rev (takeWhile (\<lambda>x. x \<noteq> CHR ''/'') (rev p));
          head = take (length p - length tail) p
      in if head \<noteq> [] \<and> \<not> list_all (\<lambda>x. x = CHR ''/'') head
         then (rstrip CHR ''/'' head, tail) else (head, tail))"

text \<open>\<^verbatim>\<open>os.path.join(a, b)\<close> for two components.\<close>

definition path_join :: "string \<Rightarrow> string \<Rightarrow> string" where
  "path_join a b =
     (if b \<noteq> [] \<and> hd b = CHR ''/'' then b
      else if a = [] \<or> last a = CHR ''/'' then a @ b
      else a @ ''/'' @ b)"

text \<open>
  \<^verbatim>\<open>os.path.expanduser\<close> for a path that is \<^verbatim>\<open>~\<close> or starts with \<^verbatim>\<open>~/\<close>, the only form
  the script uses: the home directory is \<^verbatim>\<open>HOME\<close> when it is set and the password
  database's entry otherwise; without either the path is returned as it is. The form
  \<^verbatim>\<open>~user\<close> is not expanded here.
\<close>

definition expanduser :: "string \<Rightarrow> world \<Rightarrow> string" where
  "expanduser path w =
     (case path of
        [] \<Rightarrow> path
      | c # rest \<Rightarrow>
          if c \<noteq> CHR ''~'' \<or> (rest \<noteq> [] \<and> hd rest \<noteq> CHR ''/'') then path
          else (case (case map_of (environ w) ''HOME'' of
                        Some h \<Rightarrow> Some h
                      | None \<Rightarrow> pw_dir w) of
                  None \<Rightarrow> path
                | Some userhome \<Rightarrow>
                    (let r = rstrip CHR ''/'' userhome @ rest
                     in if r = [] then ''/'' else r)))"

text \<open>
  The working directory (the empty head of a relative path) and the root are
  directories that are always there.
\<close>

definition is_root :: "string \<Rightarrow> bool" where
  "is_root p = (p \<noteq> [] \<and> list_all (\<lambda>x. x = CHR ''/'') p)"

definition path_exists :: "filesystem \<Rightarrow> string \<Rightarrow> bool" where
  "path_exists f p = (is_root p \<or> map_of f p \<noteq> None)"

definition path_isdir :: "filesystem \<Rightarrow> string \<Rightarrow> bool" where
  "path_isdir f p = (is_root p \<or> map_of f p = Some Dir)"

text \<open>The directory a new entry \<open>p\<close> is created in, and whether it can hold entries.\<close>

definition parent :: "string \<Rightarrow> string" where
  "parent p = fst (path_split p)"

definition parent_error :: "filesystem \<Rightarrow> string \<Rightarrow> error option" where
  "parent_error f p =
     (if parent p = [] \<or> path_isdir f (parent p) then None
      else if path_exists f (parent p) then Some NotADirectoryError
      else Some FileNotFoundError)"

text \<open>The names of the entries whose directory is \<open>p\<close>.\<close>

definition dir_entries :: "filesystem \<Rightarrow> string \<Rightarrow> string list" where
  "dir_entries f p =
     map (\<lambda>k. snd (path_split k))
       (filter (\<lambda>k. parent k = p \<and> snd (path_split k) \<noteq> []) (remdups (map fst f)))"

text \<open>\<^verbatim>\<open>os.listdir(p)\<close>.\<close>

definition listdir :: "filesystem \<Rightarrow> string \<Rightarrow> error + string list" where
  "listdir f p =
     (if path_isdir f p then Inr (dir_entries f p)
      else if path_exists f p then Inl NotADirectoryError
      else Inl FileNotFoundError)"

text \<open>
  \<^verbatim>\<open>os.mkdir(p)\<close>: refused when the path exists, when the directory it lies in is
  missing or not a directory, and when that directory is read-only.
\<close>

definition mkdir :: "string \<Rightarrow> string list \<Rightarrow> filesystem \<Rightarrow> (error + unit) \<times> filesystem" where
  "mkdir p ro f =
     (if p = [] then (Inl FileNotFoundError, f)
      else if path_exists f p then (Inl FileExistsError, f)
      else case parent_error f p of
             Some e \<Rightarrow> (Inl e, f)
           | None \<Rightarrow>
               if parent p \<in> set ro then (Inl PermissionError, f)
               else (Inr (), (p, Dir) # f))"

text \<open>The second half of \<^verbatim>\<open>os.makedirs\<close>: \<^verbatim>\<open>mkdir\<close>, forgiven when the directory is there.\<close>

definition mkdir_leaf :: "string \<Rightarrow> bool \<Rightarrow> string list \<Rightarrow> filesystem \<Rightarrow> (error + unit) \<times> filesystem" where
  "mkdir_leaf name exist_ok ro f =
     (case mkdir name ro f of
        (Inr u, f1) \<Rightarrow> (Inr u, f1)
      | (Inl e, f1) \<Rightarrow>
          if \<not> exist_ok \<or> \<not> path_isdir f1 name then (Inl e, f1) else (Inr (), f1))"

text \<open>The head and tail \<^verbatim>\<open>os.makedirs\<close> works with: a trailing slash is split off first.\<close>

definition makedirs_parts :: "string \<Rightarrow> string \<times> string" where
  "makedirs_parts name =
     (if snd (path_split name) = [] then path_split (fst (path_split name))
      else path_split name)"

text \<open>
  \<^verbatim>\<open>os.makedirs(name, exist_ok=exist_ok)\<close>: a missing head is made first, by the same
  function; a \<^verbatim>\<open>FileExistsError\<close> from there is passed over; then the leaf is made.
\<close>

function makedirs :: "string \<Rightarrow> bool \<Rightarrow> string list \<Rightarrow> filesystem \<Rightarrow> (error + unit) \<times> filesystem" where
  "makedirs name exist_ok ro f =
     (if fst (makedirs_parts name) \<noteq> [] \<and> snd (makedirs_parts name) \<noteq> []
         \<and> \<not> path_exists f (fst (makedirs_parts name))
      then (case makedirs (fst (makedirs_parts name)) exist_ok ro f of
              (Inl e, f1) \<Rightarrow>
                if e = FileExistsError
                then (if snd (makedirs_parts name) = ''.'' then (Inr (), f1)
                      else mkdir_leaf name exist_ok ro f1)
                else (Inl e, f1)
            | (Inr u, f1) \<Rightarrow>
                if snd (makedirs_parts name) = ''.'' then (Inr (), f1)
                else mkdir_leaf name exist_ok ro f1)
      else mkdir_leaf name exist_ok ro f)"
  by pat_completeness auto
termination
proof -
  have strip: "length (rstrip c h) \<le> length h" for c h
    unfolding rstrip_def by (metis length_dropWhile_le length_rev)
  have bound: "length (fst (path_split p)) + length (snd (path_split p)) \<le> length p" for p
  proof -
    define t where "t = rev (takeWhile (\<lambda>x. x \<noteq> CHR ''/'') (rev p))"
    define h where "h = take (length p - length t) p"
    have t: "length t \<le> length p"
      unfolding t_def using length_takeWhile_le [of _ "rev p"] by simp
    have h: "length h + length t \<le> length p"
      unfolding h_def using t by simp
    have r: "length (rstrip CHR ''/'' h) \<le> length h"
      by (rule strip)
    have "path_split p = (if h \<noteq> [] \<and> \<not> list_all (\<lambda>x. x = CHR ''/'') h
                          then (rstrip CHR ''/'' h, t) else (h, t))"
      by (simp add: path_split_def Let_def t_def h_def)
    then show ?thesis using h r by (simp split: if_splits)
  qed
  have less: "length (fst (path_split p)) < length p" if "snd (path_split p) \<noteq> []" for p
    using bound [of p] that by (cases "snd (path_split p)") simp_all
  have parts: "length (fst (makedirs_parts name)) < length name"
    if "snd (makedirs_parts name) \<noteq> []" for name
    using that less [of name] less [of "fst (path_split name)"] bound [of name]
    by (auto simp add: makedirs_parts_def split: if_splits)
  show ?thesis
    by (relation "measure (\<lambda>(name, exist_ok, ro, f). length name)") (auto simp: parts)
qed

subsection \<open>The operating-system calls as actions\<close>

definition gets :: "(world \<Rightarrow> 'a) \<Rightarrow> 'a action" where
  "gets g w = (Inr (g w), w, [])"

definition os_path_exists :: "string \<Rightarrow> bool action" where
  "os_path_exists p = gets (\<lambda>w. path_exists (fs w) p)"

definition os_listdir :: "string \<Rightarrow> string list action" where
  "os_listdir p w = (listdir (fs w) p, w, [])"

definition os_makedirs :: "string \<Rightarrow> bool \<Rightarrow> unit action" where
  "os_makedirs name exist_ok w =
     (let r = makedirs name exist_ok (readonly w) (fs w) in (fst r, w\<lparr>fs := snd r\<rparr>, []))"

text \<open>\<^verbatim>\<open>os.environ.get(k)\<close> and \<^verbatim>\<open>os.environ[k] = v\<close>.\<close>

definition environ_get :: "string \<Rightarrow> string option action" where
  "environ_get k = gets (\<lambda>w. map_of (environ w) k)"

definition environ_set :: "string \<Rightarrow> string \<Rightarrow> unit action" where
  "environ_set k v w = (Inr (), w\<lparr>environ := (k, v) # environ w\<rparr>, [])"

text \<open>\<^verbatim>\<open>not v\<close> for a value that is \<^verbatim>\<open>None\<close> or a string.\<close>

definition falsy :: "string option \<Rightarrow> bool" where
  "falsy v = (v = None \<or> v = Some [])"

text \<open>
  \<^verbatim>\<open>with open(path, "w") as f: json.dump(obj, f)\<close>: an existing file is overwritten and
  keeps its permission bits, a new one is created with the default ones.
\<close>

definition write_json :: "string \<Rightarrow> json \<Rightarrow> unit action" where
  "write_json path obj w =
     (if path = [] then (Inl FileNotFoundError, w, [])
      else if path_isdir (fs w) path then (Inl IsADirectoryError, w, [])
      else case map_of (fs w) path of
             Some (File c m) \<Rightarrow> (Inr (), w\<lparr>fs := (path, File (JsonDoc obj) m) # fs w\<rparr>, [])
           | _ \<Rightarrow>
               (case parent_error (fs w) path of
                  Some e \<Rightarrow> (Inl e, w, [])
                | None \<Rightarrow>
                    if parent path \<in> set (readonly w) then (Inl PermissionError, w, [])
                    else (Inr (), w\<lparr>fs := (path, File (JsonDoc obj) (default_mode w)) # fs w\<rparr>, [])))"

text \<open>\<^verbatim>\<open>os.chmod(path, mode)\<close>; the permission bits of directories are not modelled.\<close>

definition os_chmod :: "string \<Rightarrow> nat \<Rightarrow> unit action" where
  "os_chmod path mode w =
     (case map_of (fs w) path of
        Some (File c m) \<Rightarrow> (Inr (), w\<lparr>fs := (path, File c mode) # fs w\<rparr>, [])
      | Some Dir \<Rightarrow> (Inr (), w, [])
      | None \<Rightarrow> if is_root path then (Inr (), w, []) else (Inl FileNotFoundError, w, []))"

section \<open>The script\<close>

subsection \<open>Compiling the file\<close>

text \<open>
  The log messages of \<^verbatim>\<open>setup.py\<close> are formatted string literals (\<^verbatim>\<open>f"..."\<close>, in
  \<^verbatim>\<open>check_python_version\<close>, \<^verbatim>\<open>check_dependencies\<close> and \<^verbatim>\<open>setup_directories\<close>). An
  interpreter older than 3.6 does not know them: it rejects the whole file with a
  \<^verbatim>\<open>SyntaxError\<close> when it compiles it, before any statement of the file runs, and
  nothing is logged. The version gate and the top-level routine, whose behaviour on old
  interpreters is at stake, start with this step. The other functions never read the
  version; they are reached through \<^verbatim>\<open>main\<close> only after the step has passed.
\<close>

definition compiled :: "unit action" where
  "compiled w =
     (if fst (version_info w) < 3 \<or> (fst (version_info w) = 3 \<and> snd (version_info w) < 6)
      then (Inl SyntaxError, w, [])
      else (Inr (), w, []))"

subsection \<open>\<^verbatim>\<open>check_python_version\<close>\<close>

definition check_python_version :: "bool action" where
  "check_python_version =
     andthen compiled (\<lambda>_.
     andthen (gets version_info) (\<lambda>(major, minor).
       if major < 3 \<or> (major = 3 \<and> minor < 8)
       then andthen (logger ERROR ''Python 3.8 or higher is required.'') (\<lambda>_. ret False)
       else andthen (logger INFO (''Python version '' @ str_nat major @ ''.'' @ str_nat minor
                                   @ '' detected.''))
              (\<lambda>_. ret True)))"

subsection \<open>\<^verbatim>\<open>check_dependencies\<close>\<close>

definition required_packages :: "string list" where
  "required_packages =
     [''flask'', ''flask-login'', ''flask-sqlalchemy'', ''flask-wtf'',
      ''matplotlib'', ''numpy'', ''opencv-python'', ''pandas'', ''scikit-learn'',
      ''pillow'', ''werkzeug'', ''gunicorn'']"

text \<open>One round of the loop over the packages, from the list of those missing so far.\<close>

definition probe_package :: "string \<Rightarrow> string list \<Rightarrow> string list action" where
  "probe_package package missing_packages =
     try_except
       (andthen (import_module (replace CHR ''-'' CHR ''_'' package)) (\<lambda>_.
        andthen (logger INFO (''Package '' @ package @ '' found.'')) (\<lambda>_.
        ret missing_packages)))
       (\<lambda>e. if e = ImportError
            then andthen (logger WARNING (''Package '' @ package @ '' not found.'')) (\<lambda>_.
                 ret (missing_packages @ [package]))
            else raise_err e)"

fun probe_packages :: "string list \<Rightarrow> string list \<Rightarrow> string list action" where
  "probe_packages [] missing_packages = ret missing_packages"
| "probe_packages (package # rest) missing_packages =
     andthen (probe_package package missing_packages) (probe_packages rest)"

text \<open>What follows the loop: the offer to install what is missing.\<close>

definition install_missing :: "string list \<Rightarrow> bool action" where
  "install_missing missing_packages =
     (if missing_packages \<noteq> [] then
        andthen (logger ERROR (''Missing packages: '' @ join '', '' missing_packages)) (\<lambda>_.
        andthen (input ''Do you want to install missing packages? (y/n): '') (\<lambda>install.
          if lower install = ''y'' then
            try_except
              (andthen (gets executable) (\<lambda>exe.
               andthen (check_call ([exe, ''-m'', ''pip'', ''install''] @ missing_packages)) (\<lambda>_.
               andthen (logger INFO ''Packages installed successfully.'') (\<lambda>_.
               ret True))))
              (\<lambda>e. case e of
                     CalledProcessError rc \<Rightarrow>
                       andthen (logger ERROR ''Failed to install packages.'') (\<lambda>_. ret False)
                   | _ \<Rightarrow> raise_err e)
          else
            andthen (logger WARNING ''Continuing without installing missing packages.'') (\<lambda>_.
            ret False)))
      else ret True)"

definition check_dependencies :: "bool action" where
  "check_dependencies = andthen (probe_packages required_packages []) install_missing"

subsection \<open>\<^verbatim>\<open>check_kaggle_credentials\<close>\<close>

text \<open>The body of the innermost \<^verbatim>\<open>if\<close>: the credentials are written to the home directory.\<close>

definition persist_credentials :: "string \<Rightarrow> string \<Rightarrow> unit action" where
  "persist_credentials username key =
     andthen (gets (expanduser ''~/.kaggle'')) (\<lambda>kaggle_dir.
     andthen (os_makedirs kaggle_dir True) (\<lambda>_.
     andthen (write_json (path_join kaggle_dir ''kaggle.json'')
                (JObject [(''username'', JString username), (''key'', JString key)])) (\<lambda>_.
     andthen (os_chmod (path_join kaggle_dir ''kaggle.json'') 384) (\<lambda>_.
     logger INFO ''Kaggle credentials saved to ~/.kaggle/kaggle.json''))))"

text \<open>The body of \<^verbatim>\<open>if setup_creds.lower() == 'y'\<close>: the credentials are asked for.\<close>

definition enter_credentials :: "bool action" where
  "enter_credentials =
     andthen (input ''Enter your Kaggle username: '') (\<lambda>username.
     andthen (input ''Enter your Kaggle API key: '') (\<lambda>key.
     andthen (environ_set ''KAGGLE_USERNAME'' username) (\<lambda>_.
     andthen (environ_set ''KAGGLE_KEY'' key) (\<lambda>_.
     andthen (input ''Do you want to persist these credentials for future sessions? (y/n): '')
       (\<lambda>persist.
     andthen (if lower persist = ''y'' then persist_credentials username key else ret ()) (\<lambda>_.
     ret True))))))"

definition check_kaggle_credentials :: "bool action" where
  "check_kaggle_credentials =
     andthen (environ_get ''KAGGLE_USERNAME'') (\<lambda>kaggle_username.
     andthen (environ_get ''KAGGLE_KEY'') (\<lambda>kaggle_key.
       if falsy kaggle_username \<or> falsy kaggle_key then
         andthen (gets (expanduser ''~/.kaggle/kaggle.json'')) (\<lambda>kaggle_json.
         andthen (os_path_exists kaggle_json) (\<lambda>found.
           if found then
             andthen (logger INFO ''Kaggle credentials found in ~/.kaggle/kaggle.json'') (\<lambda>_.
             ret True)
           else
             andthen (logger WARNING
                        ''Kaggle credentials not found in environment variables or kaggle.json.'') (\<lambda>_.
             andthen (input ''Do you want to set up Kaggle credentials now? (y/n): '') (\<lambda>setup_creds.
               if lower setup_creds = ''y'' then enter_credentials
               else
                 andthen (logger WARNING ''Continuing without Kaggle credentials.'') (\<lambda>_.
                 ret False)))))
       else
         andthen (logger INFO ''Kaggle credentials found in environment variables.'') (\<lambda>_.
         ret True)))"

subsection \<open>\<^verbatim>\<open>setup_directories\<close>\<close>

definition directories :: "string list" where
  "directories =
     [''model'',
      ''dataset'',
      ''dataset/leprosy_dataset'',
      ''dataset/leprosy_dataset/positive'',
      ''dataset/leprosy_dataset/negative'',
      ''dataset/leprosy_dataset/irrelevant'',
      ''test_samples'',
      ''test_samples/positive'',
      ''test_samples/negative'',
      ''test_results'',
      ''static/uploads'',
      ''instance'']"

fun ensure_directories :: "string list \<Rightarrow> unit action" where
  "ensure_directories [] = ret ()"
| "ensure_directories (directory # rest) =
     andthen (os_makedirs directory True) (\<lambda>_.
     andthen (logger INFO (''Directory '' @ directory @ '' ensured.'')) (\<lambda>_.
     ensure_directories rest))"

definition setup_directories :: "bool action" where
  "setup_directories = andthen (ensure_directories directories) (\<lambda>_. ret True)"

subsection \<open>\<^verbatim>\<open>run_data_preparation\<close>\<close>

text \<open>\<^verbatim>\<open>a or b\<close>: \<open>b\<close> is evaluated only when \<open>a\<close> is false.\<close>

definition or_else :: "bool action \<Rightarrow> bool action \<Rightarrow> bool action" where
  "or_else a b = andthen a (\<lambda>x. if x then ret True else b)"

text \<open>\<^verbatim>\<open>not os.path.exists(d) or len(os.listdir(d)) < n\<close>.\<close>

definition missing_or_fewer :: "string \<Rightarrow> nat \<Rightarrow> bool action" where
  "missing_or_fewer d n =
     or_else (andthen (os_path_exists d) (\<lambda>found. ret (\<not> found)))
             (andthen (os_listdir d) (\<lambda>entries. ret (length entries < n)))"

definition positive_dir :: string where
  "positive_dir = ''dataset/leprosy_dataset/positive''"

definition negative_dir :: string where
  "negative_dir = ''dataset/leprosy_dataset/negative''"

definition test_pos_dir :: string where
  "test_pos_dir = ''test_samples/positive''"

definition test_neg_dir :: string where
  "test_neg_dir = ''test_samples/negative''"

text \<open>The condition of the first \<^verbatim>\<open>if\<close> inside the function: a training folder is incomplete.\<close>

definition datasets_incomplete :: "bool action" where
  "datasets_incomplete = or_else (missing_or_fewer positive_dir 10) (missing_or_fewer negative_dir 10)"

definition test_samples_incomplete :: "bool action" where
  "test_samples_incomplete = or_else (missing_or_fewer test_pos_dir 5) (missing_or_fewer test_neg_dir 5)"

text \<open>
  \<^verbatim>\<open>try: subprocess.check_call([sys.executable, script]); logger.info(done)\<close>
  \<^verbatim>\<open>except subprocess.CalledProcessError: logger.error(failed); return False\<close>.
  The result says whether the function goes on.
\<close>

definition run_script :: "string \<Rightarrow> string \<Rightarrow> string \<Rightarrow> bool action" where
  "run_script script done failed =
     try_except
       (andthen (gets executable) (\<lambda>exe.
        andthen (check_call [exe, script]) (\<lambda>_.
        andthen (logger INFO done) (\<lambda>_.
        ret True))))
       (\<lambda>e. case e of
              CalledProcessError rc \<Rightarrow> andthen (logger ERROR failed) (\<lambda>_. ret False)
            | _ \<Rightarrow> raise_err e)"

text \<open>The three stages; each result says whether the function goes on to the next.\<close>

definition download_stage :: "bool action" where
  "download_stage =
     andthen datasets_incomplete (\<lambda>incomplete.
       if incomplete then
         andthen (logger INFO ''Datasets not found or incomplete. Preparing to download...'') (\<lambda>_.
         andthen check_kaggle_credentials (\<lambda>credentials_ready.
           if credentials_ready then
             andthen (logger INFO ''Running prepare_kaggle_data.py...'') (\<lambda>_.
             run_script ''prepare_kaggle_data.py''
               ''Dataset preparation completed successfully.''
               ''Failed to prepare datasets.'')
           else
             andthen (logger ERROR ''Cannot prepare datasets without Kaggle credentials.'') (\<lambda>_.
             ret False)))
       else
         andthen (logger INFO ''Datasets already downloaded.'') (\<lambda>_. ret True))"

definition test_samples_stage :: "bool action" where
  "test_samples_stage =
     andthen test_samples_incomplete (\<lambda>incomplete.
       if incomplete then
         andthen (logger INFO ''Test samples not found or incomplete. Preparing...'') (\<lambda>_.
         run_script ''prepare_test_samples.py''
           ''Test samples prepared successfully.''
           ''Failed to prepare test samples.'')
       else
         andthen (logger INFO ''Test samples already prepared.'') (\<lambda>_. ret True))"

definition training_stage :: "bool action" where
  "training_stage =
     andthen (logger INFO ''Training the model...'') (\<lambda>_.
     run_script ''retrain_model.py''
       ''Model training completed successfully.''
       ''Failed to train the model.'')"

definition run_data_preparation :: "bool action" where
  "run_data_preparation =
     andthen (os_path_exists ''model/leprosy_classifier.pkl'') (\<lambda>found.
       if \<not> found then
         andthen download_stage (\<lambda>go_on.
           if \<not> go_on then ret False
           else andthen test_samples_stage (\<lambda>go_on.
             if \<not> go_on then ret False
             else andthen training_stage (\<lambda>go_on.
               if \<not> go_on then ret False
               else ret True)))
       else
         andthen (logger INFO ''Model already exists. Skipping data preparation and training.'') (\<lambda>_.
         ret True))"

subsection \<open>\<^verbatim>\<open>main\<close> and the process exit code\<close>

definition main :: "bool action" where
  "main =
     andthen compiled (\<lambda>_.
     andthen (logger INFO ''Starting setup for Leprosy Detection AI Application...'') (\<lambda>_.
     andthen check_python_version (\<lambda>version_ok.
       if \<not> version_ok then
         andthen (logger ERROR ''Setup failed: Incompatible Python version.'') (\<lambda>_. ret False)
       else
         andthen check_dependencies (\<lambda>dependencies_ok.
         andthen (if \<not> dependencies_ok
                  then logger WARNING ''Setup may not work correctly without required packages.''
                  else ret ()) (\<lambda>_.
         andthen setup_directories (\<lambda>directories_ok.
           if \<not> directories_ok then
             andthen (logger ERROR ''Setup failed: Could not create required directories.'') (\<lambda>_.
             ret False)
           else
             andthen run_data_preparation (\<lambda>prepared.
             andthen (if \<not> prepared
                      then logger WARNING
                             ''Data preparation incomplete. The application may not work properly.''
                      else ret ()) (\<lambda>_.
             andthen (logger INFO ''Setup completed successfully!'') (\<lambda>_.
             andthen (logger INFO ''To run the application, use: python main.py'') (\<lambda>_.
             ret True))))))))))"

text \<open>
  The \<^verbatim>\<open>__main__\<close> block: \<^verbatim>\<open>sys.exit(1)\<close> when \<^verbatim>\<open>main\<close> returns false, the end of the
  script (status 0) when it returns true; an exception that nothing catches, the
  \<^verbatim>\<open>SyntaxError\<close> of a file that does not compile included, ends the interpreter with
  status 1.
\<close>

definition exit_code :: "world \<Rightarrow> int" where
  "exit_code w =
     (case outcome (main w) of
        Inr success \<Rightarrow> if \<not> success then 1 else 0
      | Inl e \<Rightarrow> 1)"

section \<open>Observations and example worlds\<close>

text \<open>The child processes among the events of a run.\<close>

definition spawns :: "event list \<Rightarrow> event list" where
  "spawns evs = filter (\<lambda>ev. case ev of Spawn cmd rc \<Rightarrow> True | _ \<Rightarrow> False) evs"

text \<open>
  A fresh checkout on a current interpreter: nothing on disk, every required package
  importable, nothing on standard input, every child process succeeding.
\<close>

definition example_world :: world where
  "example_world =
     \<lparr>fs = [], readonly = [], default_mode = 420,
      environ = [(''HOME'', ''/home/u'')], pw_dir = None, stdin = [],
      version_info = (3, 11),
      importable = map (replace CHR ''-'' CHR ''_'') required_packages,
      executable = ''/usr/bin/python3'',
      proc = (\<lambda>cmd env f. (0, f))\<rparr>"

text \<open>The module names a run tried to import, in order.\<close>

definition imported :: "event list \<Rightarrow> string list" where
  "imported evs = concat (map (\<lambda>ev. case ev of Import name \<Rightarrow> [name] | _ \<Rightarrow> []) evs)"

text \<open>What one round of the loop of \<^verbatim>\<open>check_dependencies\<close> shows for a package.\<close>

definition probe_events :: "world \<Rightarrow> string \<Rightarrow> event list" where
  "probe_events w package =
     [Import (replace CHR ''-'' CHR ''_'' package),
      if replace CHR ''-'' CHR ''_'' package \<in> set (importable w)
      then Log INFO (''Package '' @ package @ '' found.'')
      else Log WARNING (''Package '' @ package @ '' not found.'')]"

text \<open>
  One file system extends another: what was a directory stays one, what existed still
  exists.
\<close>

definition grows :: "filesystem \<Rightarrow> filesystem \<Rightarrow> bool" where
  "grows f f1 = (\<forall>q. (path_isdir f q \<longrightarrow> path_isdir f1 q) \<and> (path_exists f q \<longrightarrow> path_exists f1 q))"

text \<open>
  A path \<^verbatim>\<open>os.makedirs\<close> treats in the ordinary way: it has a last component, and neither
  it nor its head ends in the component \<^verbatim>\<open>.\<close>
\<close>

definition plain :: "string \<Rightarrow> bool" where
  "plain d = (snd (makedirs_parts d) \<noteq> ''.'' \<and> snd (makedirs_parts d) \<noteq> []
      \<and> snd (makedirs_parts (fst (makedirs_parts d))) \<noteq> ''.'')"

text \<open>A directory that is there, together with the directory it lies in.\<close>

definition settled :: "filesystem \<Rightarrow> string \<Rightarrow> bool" where
  "settled f d = (path_isdir f d
      \<and> (fst (makedirs_parts d) = [] \<or> path_exists f (fst (makedirs_parts d))))"

text \<open>
  Events that are neither an error record nor a child process, and the actions that
  show only such events and leave the interpreter's path alone.
\<close>

definition quiet :: "event \<Rightarrow> bool" where
  "quiet ev = (case ev of Log l msg \<Rightarrow> l \<noteq> ERROR | Spawn cmd rc \<Rightarrow> False | _ \<Rightarrow> True)"

definition quiet_action :: "'a action \<Rightarrow> bool" where
  "quiet_action m =
     (\<forall>w. list_all quiet (events (m w)) \<and> executable (after (m w)) = executable w)"

text \<open>
  The value of \<^verbatim>\<open>not os.path.exists(d) or len(os.listdir(d)) < n\<close> on a file system, and
  of \<^verbatim>\<open>a or b\<close> for two such values.
\<close>

definition folder_check :: "filesystem \<Rightarrow> string \<Rightarrow> nat \<Rightarrow> error + bool" where
  "folder_check f d n =
     (if \<not> path_exists f d then Inr True
      else case listdir f d of Inl e \<Rightarrow> Inl e | Inr entries \<Rightarrow> Inr (length entries < n))"

definition either_check :: "error + bool \<Rightarrow> error + bool \<Rightarrow> error + bool" where
  "either_check a b = (case a of Inl e \<Rightarrow> Inl e | Inr x \<Rightarrow> if x then Inr True else b)"

text \<open>The child processes of a run that exited with a non-zero code.\<close>

definition failed_spawns :: "event list \<Rightarrow> event list" where
  "failed_spawns evs = filter (\<lambda>ev. case ev of Spawn cmd rc \<Rightarrow> rc \<noteq> 0 | _ \<Rightarrow> False) evs"

text \<open>The runs of one script among the events: the interpreter started on that script.\<close>

definition script_spawns :: "string \<Rightarrow> string \<Rightarrow> event list \<Rightarrow> event list" where
  "script_spawns exe script evs =
     filter (\<lambda>ev. case ev of Spawn cmd rc \<Rightarrow> cmd = [exe, script] | _ \<Rightarrow> False) evs"

text \<open>The three scripts of the cascade, and a failed run of one of them.\<close>

definition data_scripts :: "string list" where
  "data_scripts = [''prepare_kaggle_data.py'', ''prepare_test_samples.py'', ''retrain_model.py'']"

definition failed_script :: "event \<Rightarrow> bool" where
  "failed_script ev =
     (case ev of
        Spawn cmd rc \<Rightarrow> rc \<noteq> 0 \<and> tl cmd \<in> set (map (\<lambda>s. [s]) data_scripts)
      | _ \<Rightarrow> False)"

definition is_log :: "event \<Rightarrow> bool" where
  "is_log ev = (case ev of Log l msg \<Rightarrow> True | _ \<Rightarrow> False)"

definition is_error_log :: "event \<Rightarrow> bool" where
  "is_error_log ev = (case ev of Log l msg \<Rightarrow> l = ERROR | _ \<Rightarrow> False)"

text \<open>
  A run that reports a failed child process: without the result false no child process
  failed, and with it the last event is an error record.
\<close>

definition reports_failure :: "bool run \<Rightarrow> bool" where
  "reports_failure r =
     ((outcome r \<noteq> Inr False \<longrightarrow> failed_spawns (events r) = [])
      \<and> (outcome r = Inr False \<longrightarrow> events r \<noteq> [] \<and> is_error_log (last (events r))))"

text \<open>The error record of the branch of \<^verbatim>\<open>main\<close> that follows a failed directory setup.\<close>

definition directories_failure :: event where
  "directories_failure = Log ERROR ''Setup failed: Could not create required directories.''"

text \<open>The events around the stages of \<^verbatim>\<open>main\<close> on an interpreter that passes the gate.\<close>

definition preamble :: "world \<Rightarrow> event list" where
  "preamble w =
     [Log INFO ''Starting setup for Leprosy Detection AI Application...'',
      Log INFO (''Python version '' @ str_nat (fst (version_info w)) @ ''.''
                @ str_nat (snd (version_info w)) @ '' detected.'')]"

definition dependency_warning :: "bool \<Rightarrow> event list" where
  "dependency_warning ok =
     (if \<not> ok then [Log WARNING ''Setup may not work correctly without required packages.'']
      else [])"

definition preparation_warning :: "bool \<Rightarrow> event list" where
  "preparation_warning prepared =
     (if \<not> prepared
      then [Log WARNING ''Data preparation incomplete. The application may not work properly.'']
      else [])"

definition epilogue :: "event list" where
  "epilogue =
     [Log INFO ''Setup completed successfully!'',
      Log INFO ''To run the application, use: python main.py'']"

text \<open>The interpreter is older than 3.6, so that the file does not compile.\<close>

definition below_3_6 :: "world \<Rightarrow> bool" where
  "below_3_6 w =
     (fst (version_info w) < 3 \<or> (fst (version_info w) = 3 \<and> snd (version_info w) < 6))"

text \<open>A fresh checkout on Python 3.5.\<close>

definition python_3_5_world :: world where
  "python_3_5_world = example_world\<lparr>version_info := (3, 5)\<rparr>"

text \<open>The interpreter is older than 3.8.\<close>

definition below_3_8 :: "world \<Rightarrow> bool" where
  "below_3_8 w =
     (fst (version_info w) < 3 \<or> (fst (version_info w) = 3 \<and> snd (version_info w) < 8))"

text \<open>A folder that is missing or holds fewer than \<open>n\<close> entries.\<close>

definition missing_or_short :: "filesystem \<Rightarrow> string \<Rightarrow> nat \<Rightarrow> bool" where
  "missing_or_short f d n = (\<not> path_exists f d \<or> length (dir_entries f d) < n)"

text \<open>
  A working directory in which \<^verbatim>\<open>model\<close> is a regular file, on a current interpreter
  with every required package importable.
\<close>

definition blocked_world :: world where
  "blocked_world = example_world\<lparr>fs := [(''model'', File Opaque 420)]\<rparr>"

text \<open>
  A fresh checkout in which the credentials are in the environment and the training
  script exits with status 2, and one in which a package is missing, the operator
  agrees to install it and the installer exits with status 1.
\<close>

definition failing_training_world :: world where
  "failing_training_world =
     example_world
       \<lparr>environ := [(''KAGGLE_USERNAME'', ''u''), (''KAGGLE_KEY'', ''k''), (''HOME'', ''/home/u'')],
        proc := (\<lambda>cmd env f. (if tl cmd = [''retrain_model.py''] then 2 else 0, f))\<rparr>"

definition failing_install_world :: world where
  "failing_install_world =
     example_world\<lparr>importable := [], stdin := [''y''], proc := (\<lambda>cmd env f. (1, f))\<rparr>"

text \<open>
  A fresh checkout without credentials whose operator declines to enter them, and one
  with the credentials in the environment.
\<close>

definition declining_world :: world where
  "declining_world = example_world\<lparr>stdin := [''n'']\<rparr>"

definition credentialed_world :: world where
  "credentialed_world =
     example_world
       \<lparr>environ := [(''KAGGLE_USERNAME'', ''u''), (''KAGGLE_KEY'', ''k''), (''HOME'', ''/home/u'')]\<rparr>"

text \<open>
  The world after the username and the key have been read and stored in the environment,
  and the prompts shown on the way to the question about persistence.
\<close>

definition entered :: "world \<Rightarrow> string \<Rightarrow> string \<Rightarrow> string list \<Rightarrow> world" where
  "entered w username key rest =
     w\<lparr>environ := (''KAGGLE_KEY'', key) # (''KAGGLE_USERNAME'', username) # environ w,
       stdin := rest\<rparr>"

definition credential_prompts :: "event list" where
  "credential_prompts =
     [Prompt ''Enter your Kaggle username: '',
      Prompt ''Enter your Kaggle API key: '',
      Prompt ''Do you want to persist these credentials for future sessions? (y/n): '']"

definition setup_prompt :: "event list" where
  "setup_prompt =
     [Log WARNING ''Kaggle credentials not found in environment variables or kaggle.json.'',
      Prompt ''Do you want to set up Kaggle credentials now? (y/n): '']"

text \<open>The credential check reaches its prompts: nothing in the environment, no file.\<close>

definition asks_for_credentials :: "world \<Rightarrow> bool" where
  "asks_for_credentials w =
     ((falsy (map_of (environ w) ''KAGGLE_USERNAME'') \<or> falsy (map_of (environ w) ''KAGGLE_KEY''))
      \<and> \<not> path_exists (fs w) (expanduser ''~/.kaggle/kaggle.json'' w))"

text \<open>Worlds in which the operator types the answers.\<close>

definition persisting_world :: world where
  "persisting_world = example_world\<lparr>stdin := [''y'', ''bob'', ''k3y'', ''y'']\<rparr>"

text \<open>
  A fresh checkout without any of the packages whose operator answers the install
  prompt with a capital Y.
\<close>

definition uppercase_world :: world where
  "uppercase_world = example_world\<lparr>importable := [], stdin := [''Y'']\<rparr>"

text \<open>The operator agrees to enter credentials and declines to persist them.\<close>

definition not_persisting_world :: world where
  "not_persisting_world = example_world\<lparr>stdin := [''Y'', ''bob'', ''k3y'', ''yes'']\<rparr>"

section \<open>Evaluating actions\<close>

text \<open>The recursion equation of \<^verbatim>\<open>makedirs\<close> is unfolded by hand only.\<close>

declare makedirs.simps [simp del]

text \<open>So is that of \<^verbatim>\<open>str_nat\<close>.\<close>

declare str_nat.simps [simp del]

lemma andthen_ret [simp]: "andthen (ret x) f w = f x w"
  by (simp add: andthen_def ret_def split: prod.splits)

lemma andthen_gets [simp]: "andthen (gets g) f w = f (g w) w"
  by (simp add: andthen_def gets_def split: prod.splits)

lemma andthen_logger [simp]:
  "andthen (logger l msg) f w = (case f () w of (r, w2, evs) \<Rightarrow> (r, w2, Log l msg # evs))"
  by (simp add: andthen_def logger_def split: prod.splits)

lemma andthen_Inr:
  "m w = (Inr x, w1, evs) \<Longrightarrow> andthen m f w = (case f x w1 of (r, w2, evs') \<Rightarrow> (r, w2, evs @ evs'))"
  by (simp add: andthen_def)

lemma andthen_Inl: "m w = (Inl e, w1, evs) \<Longrightarrow> andthen m f w = (Inl e, w1, evs)"
  by (simp add: andthen_def)

lemma andthen_input:
  "andthen (input p) f w =
     (case stdin w of
        [] \<Rightarrow> (Inl EOFError, w, [Prompt p])
      | l # ls \<Rightarrow> (case f l (w\<lparr>stdin := ls\<rparr>) of (r, w2, evs) \<Rightarrow> (r, w2, Prompt p # evs)))"
  by (simp add: andthen_def input_def split: list.splits prod.splits)

lemma andthen_environ_set:
  "andthen (environ_set k v) f w = f () (w\<lparr>environ := (k, v) # environ w\<rparr>)"
  by (simp add: andthen_def environ_set_def split: prod.splits)

lemma expanduser_cong:
  "map_of (environ w1) ''HOME'' = map_of (environ w) ''HOME'' \<Longrightarrow> pw_dir w1 = pw_dir w
   \<Longrightarrow> expanduser p w1 = expanduser p w"
  unfolding expanduser_def by (auto split: list.splits option.splits)

lemma expanduser_join:
  "path_join (expanduser ''~/.kaggle'' w) ''kaggle.json'' = expanduser ''~/.kaggle/kaggle.json'' w"
proof (cases "case map_of (environ w) ''HOME'' of Some h \<Rightarrow> Some h | None \<Rightarrow> pw_dir w")
  case None
  then show ?thesis by (simp add: expanduser_def path_join_def)
next
  case (Some h)
  then show ?thesis by (simp add: expanduser_def path_join_def Let_def)
qed

lemma os_makedirs_result:
  "os_makedirs d e w =
     (fst (makedirs d e (readonly w) (fs w)), w\<lparr>fs := snd (makedirs d e (readonly w) (fs w))\<rparr>, [])"
  by (simp add: os_makedirs_def Let_def)

lemma write_json_result:
  "(\<exists>m. write_json p j w = (Inr (), w\<lparr>fs := (p, File (JsonDoc j) m) # fs w\<rparr>, []))
   \<or> (\<exists>e. write_json p j w = (Inl e, w, []))"
proof (cases "p = [] \<or> path_isdir (fs w) p")
  case True
  then show ?thesis by (auto simp add: write_json_def)
next
  case False
  show ?thesis
  proof (cases "\<exists>c m. map_of (fs w) p = Some (File c m)")
    case True
    with False show ?thesis by (auto simp add: write_json_def)
  next
    case nofile: False
    then have other: "(case map_of (fs w) p of Some (File c m) \<Rightarrow> a c m | _ \<Rightarrow> b) = b"
      for a :: "content \<Rightarrow> nat \<Rightarrow> unit run" and b
      by (auto split: option.splits node.splits)
    show ?thesis
      using False by (cases "parent_error (fs w) p") (auto simp add: write_json_def other)
  qed
qed

lemma os_chmod_written:
  "os_chmod p mode (w\<lparr>fs := (p, File c m) # f\<rparr>) =
     (Inr (), w\<lparr>fs := (p, File c mode) # (p, File c m) # f\<rparr>, [])"
  by (simp add: os_chmod_def)

section \<open>The model artifact marker\<close>

text \<open>
  Claim C1. When \<^verbatim>\<open>model/leprosy_classifier.pkl\<close> exists, \<^verbatim>\<open>run_data_preparation\<close>
  returns true, leaves the world as it was and writes one log record: no child process
  is started.
\<close>

theorem model_present_skips_cascade:
  assumes "path_exists (fs w) ''model/leprosy_classifier.pkl''"
  shows "run_data_preparation w =
           (Inr True, w, [Log INFO ''Model already exists. Skipping data preparation and training.''])
         \<and> spawns (events (run_data_preparation w)) = []"
  using assms
  by (simp add: run_data_preparation_def os_path_exists_def ret_def events_def spawns_def)

theorem model_present_skips_cascade_witness:
  "path_exists (fs (example_world\<lparr>fs := [(''model/leprosy_classifier.pkl'', File Opaque 420)]\<rparr>))
     ''model/leprosy_classifier.pkl''
   \<and> (run_data_preparation (example_world\<lparr>fs := [(''model/leprosy_classifier.pkl'', File Opaque 420)]\<rparr>) =
        (Inr True, example_world\<lparr>fs := [(''model/leprosy_classifier.pkl'', File Opaque 420)]\<rparr>,
         [Log INFO ''Model already exists. Skipping data preparation and training.''])
      \<and> spawns (events (run_data_preparation
           (example_world\<lparr>fs := [(''model/leprosy_classifier.pkl'', File Opaque 420)]\<rparr>))) = [])"
proof -
  have h: "path_exists (fs (example_world\<lparr>fs := [(''model/leprosy_classifier.pkl'', File Opaque 420)]\<rparr>))
             ''model/leprosy_classifier.pkl''"
    by (simp add: path_exists_def)
  show ?thesis
    by (rule conjI [OF h model_present_skips_cascade [OF h]])
qed

section \<open>The dependency probe\<close>

lemma probe_package_eq:
  "probe_package p acc w =
     (Inr (if replace CHR ''-'' CHR ''_'' p \<in> set (importable w) then acc else acc @ [p]), w,
      probe_events w p)"
  by (simp add: probe_package_def try_except_def andthen_def import_module_def logger_def ret_def
      probe_events_def)

lemma probe_packages_eq:
  "probe_packages ps acc w =
     (Inr (acc @ filter (\<lambda>p. replace CHR ''-'' CHR ''_'' p \<notin> set (importable w)) ps), w,
      concat (map (probe_events w) ps))"
proof (induction ps arbitrary: acc)
  case Nil
  show ?case by (simp add: ret_def)
next
  case (Cons p ps)
  show ?case
    by (simp add: andthen_Inr [OF probe_package_eq] Cons.IH)
qed

lemma install_missing_events:
  "imported (events (install_missing ms w)) = []"
  "Log WARNING (''Package '' @ p @ '' not found.'') \<notin> set (events (install_missing ms w))"
  by (auto simp add: install_missing_def andthen_input try_except_def andthen_def [of "check_call _"]
      check_call_def Let_def ret_def logger_def events_def imported_def
      split: list.splits prod.splits sum.splits error.splits if_splits)


lemma check_dependencies_events:
  "events (check_dependencies w) =
     concat (map (probe_events w) required_packages)
     @ events (install_missing
         (filter (\<lambda>p. replace CHR ''-'' CHR ''_'' p \<notin> set (importable w)) required_packages) w)"
  by (simp add: check_dependencies_def andthen_Inr [OF probe_packages_eq] events_def
      split: prod.splits)

lemma imported_append: "imported (xs @ ys) = imported xs @ imported ys"
  by (simp add: imported_def)

lemma imported_probe_events:
  "imported (concat (map (probe_events w) ps)) = map (replace CHR ''-'' CHR ''_'') ps"
  by (induction ps) (simp_all add: imported_def probe_events_def)

lemma not_found_in_probe_events:
  "Log WARNING (''Package '' @ p @ '' not found.'') \<in> set (concat (map (probe_events w) ps))
   \<longleftrightarrow> p \<in> set ps \<and> replace CHR ''-'' CHR ''_'' p \<notin> set (importable w)"
  by (induction ps) (auto simp add: probe_events_def)

text \<open>
  Claim C10. \<^verbatim>\<open>check_dependencies\<close> tries to import exactly the listed names with every
  hyphen replaced by an underscore, in order, and nothing else; a listed package is
  reported as not found exactly when that transformed name cannot be imported, whatever
  other modules can. The names probed for \<^verbatim>\<open>opencv-python\<close> and \<^verbatim>\<open>scikit-learn\<close>
  are \<^verbatim>\<open>opencv_python\<close> and \<^verbatim>\<open>scikit_learn\<close>.
\<close>

theorem dependencies_probe_transformed_names_only:
  "imported (events (check_dependencies w)) = map (replace CHR ''-'' CHR ''_'') required_packages
   \<and> (\<forall>p \<in> set required_packages.
        Log WARNING (''Package '' @ p @ '' not found.'') \<in> set (events (check_dependencies w))
        \<longleftrightarrow> replace CHR ''-'' CHR ''_'' p \<notin> set (importable w))
   \<and> replace CHR ''-'' CHR ''_'' ''opencv-python'' = ''opencv_python''
   \<and> replace CHR ''-'' CHR ''_'' ''scikit-learn'' = ''scikit_learn''"
proof -
  have a: "imported (events (check_dependencies w)) = map (replace CHR ''-'' CHR ''_'') required_packages"
    by (simp add: check_dependencies_events imported_append imported_probe_events
        install_missing_events(1))
  have b: "Log WARNING (''Package '' @ p @ '' not found.'') \<in> set (events (check_dependencies w))
        \<longleftrightarrow> replace CHR ''-'' CHR ''_'' p \<notin> set (importable w)"
    if "p \<in> set required_packages" for p
  proof -
    have "set (events (check_dependencies w)) =
            set (concat (map (probe_events w) required_packages))
            \<union> set (events (install_missing
                (filter (\<lambda>p. replace CHR ''-'' CHR ''_'' p \<notin> set (importable w)) required_packages) w))"
      by (simp only: check_dependencies_events set_append)
    then show ?thesis
      using that not_found_in_probe_events [of p w required_packages]
        install_missing_events(2) [of p]
      by blast
  qed
  have c: "replace CHR ''-'' CHR ''_'' ''opencv-python'' = ''opencv_python''
      \<and> replace CHR ''-'' CHR ''_'' ''scikit-learn'' = ''scikit_learn''"
    by (simp add: replace_def)
  from a b c show ?thesis by blast
qed

theorem dependencies_probe_transformed_names_only_witness:
  "''pillow'' \<in> set required_packages
   \<and> replace CHR ''-'' CHR ''_'' ''pillow'' \<notin> set (importable (example_world\<lparr>importable := [''PIL'', ''cv2'']\<rparr>))
   \<and> Log WARNING ''Package pillow not found.''
        \<in> set (events (check_dependencies (example_world\<lparr>importable := [''PIL'', ''cv2'']\<rparr>)))
   \<and> imported (events (check_dependencies (example_world\<lparr>importable := [''PIL'', ''cv2'']\<rparr>)))
        = map (replace CHR ''-'' CHR ''_'') required_packages"
proof -
  have p: "''pillow'' \<in> set required_packages"
    by (simp add: required_packages_def)
  have q: "replace CHR ''-'' CHR ''_'' ''pillow'' \<notin> set (importable (example_world\<lparr>importable := [''PIL'', ''cv2'']\<rparr>))"
    by (simp add: replace_def)
  show ?thesis
    using p q dependencies_probe_transformed_names_only [of "example_world\<lparr>importable := [''PIL'', ''cv2'']\<rparr>"]
    by auto
qed

section \<open>Directory provisioning\<close>

lemma grows_refl: "grows f f"
  by (simp add: grows_def)

lemma grows_trans: "grows f f1 \<Longrightarrow> grows f1 f2 \<Longrightarrow> grows f f2"
  by (simp add: grows_def)

lemma isdir_exists: "path_isdir f p \<Longrightarrow> path_exists f p"
  by (auto simp add: path_isdir_def path_exists_def)

lemma mkdir_cases:
  "(mkdir p ro f = (Inr (), (p, Dir) # f) \<and> \<not> path_exists f p)
   \<or> (\<exists>e. mkdir p ro f = (Inl e, f) \<and> (e = FileExistsError \<longrightarrow> path_exists f p))"
proof (cases "p = [] \<or> path_exists f p")
  case True
  then show ?thesis by (auto simp add: mkdir_def)
next
  case False
  show ?thesis
  proof (cases "parent_error f p")
    case None
    with False show ?thesis by (simp add: mkdir_def)
  next
    case (Some e)
    then have "e \<noteq> FileExistsError"
      by (auto simp add: parent_error_def split: if_splits)
    with False Some show ?thesis by (simp add: mkdir_def)
  qed
qed

lemma grows_new_dir: "\<not> path_exists f p \<Longrightarrow> grows f ((p, Dir) # f)"
  by (auto simp add: grows_def path_isdir_def path_exists_def)

lemma mkdir_leaf_cases:
  "(mkdir_leaf p e ro f = (Inr (), (p, Dir) # f) \<and> \<not> path_exists f p)
   \<or> (mkdir_leaf p e ro f = (Inr (), f) \<and> path_isdir f p)
   \<or> (\<exists>err. mkdir_leaf p e ro f = (Inl err, f) \<and> (err = FileExistsError \<longrightarrow> path_exists f p))"
proof -
  from mkdir_cases [of p ro f] consider
    (made) "mkdir p ro f = (Inr (), (p, Dir) # f)" "\<not> path_exists f p"
    | (failed) err where "mkdir p ro f = (Inl err, f)" "err = FileExistsError \<longrightarrow> path_exists f p"
    by blast
  then show ?thesis
  proof cases
    case made
    then show ?thesis by (simp add: mkdir_leaf_def)
  next
    case failed
    then show ?thesis by (cases "\<not> e \<or> \<not> path_isdir f p") (simp_all add: mkdir_leaf_def)
  qed
qed

lemma mkdir_leaf_grows: "grows f (snd (mkdir_leaf p e ro f))"
  using mkdir_leaf_cases [of p e ro f] by (auto simp add: grows_refl grows_new_dir)

lemma mkdir_leaf_isdir:
  "fst (mkdir_leaf p e ro f) = Inr u \<Longrightarrow> path_isdir (snd (mkdir_leaf p e ro f)) p"
  using mkdir_leaf_cases [of p e ro f] by (auto simp add: path_isdir_def)

lemma mkdir_leaf_FileExists:
  "fst (mkdir_leaf p e ro f) = Inl FileExistsError \<Longrightarrow> path_exists (snd (mkdir_leaf p e ro f)) p"
  using mkdir_leaf_cases [of p e ro f] by auto

lemma mkdir_leaf_there:
  "path_isdir f p \<Longrightarrow> mkdir_leaf p True ro f = (Inr (), f)"
  using mkdir_cases [of p ro f] by (auto simp add: mkdir_leaf_def isdir_exists)

lemma makedirs_leaf:
  assumes "\<not> (fst (makedirs_parts name) \<noteq> [] \<and> snd (makedirs_parts name) \<noteq> []
         \<and> \<not> path_exists f (fst (makedirs_parts name)))"
  shows "makedirs name e ro f = mkdir_leaf name e ro f"
proof -
  have c: "(fst (makedirs_parts name) \<noteq> [] \<and> snd (makedirs_parts name) \<noteq> []
         \<and> \<not> path_exists f (fst (makedirs_parts name))) = False"
    using assms by blast
  show ?thesis
    by (subst makedirs.simps) (simp only: c if_False)
qed

lemma makedirs_rec:
  assumes "fst (makedirs_parts name) \<noteq> [] \<and> snd (makedirs_parts name) \<noteq> []
         \<and> \<not> path_exists f (fst (makedirs_parts name))"
    and "makedirs (fst (makedirs_parts name)) e ro f = (r1, f1)"
  shows "makedirs name e ro f =
           (if r1 \<noteq> Inl FileExistsError \<and> (\<exists>err. r1 = Inl err) then (r1, f1)
            else if snd (makedirs_parts name) = ''.'' then (Inr (), f1)
            else mkdir_leaf name e ro f1)"
proof -
  have c: "(fst (makedirs_parts name) \<noteq> [] \<and> snd (makedirs_parts name) \<noteq> []
         \<and> \<not> path_exists f (fst (makedirs_parts name))) = True"
    using assms(1) by blast
  have "makedirs name e ro f =
          (case (r1, f1) of
              (Inl e', f1) \<Rightarrow>
                if e' = FileExistsError
                then (if snd (makedirs_parts name) = ''.'' then (Inr (), f1)
                      else mkdir_leaf name e ro f1)
                else (Inl e', f1)
            | (Inr u, f1) \<Rightarrow>
                if snd (makedirs_parts name) = ''.'' then (Inr (), f1)
                else mkdir_leaf name e ro f1)"
    by (subst makedirs.simps) (simp only: c if_True assms(2))
  then show ?thesis
    by (cases r1) simp_all
qed

lemma makedirs_grows: "grows f (snd (makedirs name e ro f))"
proof (induction name e ro f rule: makedirs.induct)
  case (1 name exist_ok ro f)
  show ?case
  proof (cases "fst (makedirs_parts name) \<noteq> [] \<and> snd (makedirs_parts name) \<noteq> []
         \<and> \<not> path_exists f (fst (makedirs_parts name))")
    case True
    obtain r1 f1 where r: "makedirs (fst (makedirs_parts name)) exist_ok ro f = (r1, f1)"
      by (cases "makedirs (fst (makedirs_parts name)) exist_ok ro f")
    have g1: "grows f f1"
      using "1.IH" True r by simp
    have g2: "grows f (snd (mkdir_leaf name exist_ok ro f1))"
      by (rule grows_trans [OF g1 mkdir_leaf_grows])
    show ?thesis
      using g1 g2 by (simp add: makedirs_rec [OF True r])
  next
    case False
    then have "makedirs name exist_ok ro f = mkdir_leaf name exist_ok ro f"
      by (rule makedirs_leaf)
    then show ?thesis
      by (simp add: mkdir_leaf_grows)
  qed
qed

lemma makedirs_isdir:
  assumes ok: "fst (makedirs name e ro f) = Inr u" and tail: "snd (makedirs_parts name) \<noteq> ''.''"
  shows "path_isdir (snd (makedirs name e ro f)) name"
proof (cases "fst (makedirs_parts name) \<noteq> [] \<and> snd (makedirs_parts name) \<noteq> []
         \<and> \<not> path_exists f (fst (makedirs_parts name))")
  case True
  obtain r1 f1 where r: "makedirs (fst (makedirs_parts name)) e ro f = (r1, f1)"
    by (cases "makedirs (fst (makedirs_parts name)) e ro f")
  have "makedirs name e ro f = mkdir_leaf name e ro f1"
    using ok tail by (auto simp add: makedirs_rec [OF True r] split: if_splits)
  with ok show ?thesis
    by (simp add: mkdir_leaf_isdir)
next
  case False
  with ok show ?thesis
    by (simp add: makedirs_leaf mkdir_leaf_isdir)
qed

lemma makedirs_FileExists:
  assumes err: "fst (makedirs name e ro f) = Inl FileExistsError"
  shows "path_exists (snd (makedirs name e ro f)) name"
proof (cases "fst (makedirs_parts name) \<noteq> [] \<and> snd (makedirs_parts name) \<noteq> []
         \<and> \<not> path_exists f (fst (makedirs_parts name))")
  case True
  obtain r1 f1 where r: "makedirs (fst (makedirs_parts name)) e ro f = (r1, f1)"
    by (cases "makedirs (fst (makedirs_parts name)) e ro f")
  have "makedirs name e ro f = mkdir_leaf name e ro f1"
    using err by (auto simp add: makedirs_rec [OF True r] split: if_splits)
  with err show ?thesis
    by (simp add: mkdir_leaf_FileExists)
next
  case False
  with err show ?thesis
    by (simp add: makedirs_leaf mkdir_leaf_FileExists)
qed

lemma makedirs_head_exists:
  assumes ok: "fst (makedirs name e ro f) = Inr u"
    and plain: "snd (makedirs_parts (fst (makedirs_parts name))) \<noteq> ''.''"
  shows "fst (makedirs_parts name) = [] \<or> snd (makedirs_parts name) = []
         \<or> path_exists (snd (makedirs name e ro f)) (fst (makedirs_parts name))"
proof (cases "fst (makedirs_parts name) \<noteq> [] \<and> snd (makedirs_parts name) \<noteq> []
         \<and> \<not> path_exists f (fst (makedirs_parts name))")
  case True
  obtain r1 f1 where r: "makedirs (fst (makedirs_parts name)) e ro f = (r1, f1)"
    by (cases "makedirs (fst (makedirs_parts name)) e ro f")
  have made: "path_exists f1 (fst (makedirs_parts name))"
  proof (cases r1)
    case (Inl err)
    with ok have "err = FileExistsError"
      by (auto simp add: makedirs_rec [OF True r] split: if_splits)
    with Inl r makedirs_FileExists [of "fst (makedirs_parts name)" e ro f] show ?thesis
      by simp
  next
    case (Inr v)
    with r plain makedirs_isdir [of "fst (makedirs_parts name)" e ro f v] show ?thesis
      by (simp add: isdir_exists)
  qed
  have "snd (makedirs name e ro f) = f1 \<or> snd (makedirs name e ro f) = snd (mkdir_leaf name e ro f1)"
    by (simp add: makedirs_rec [OF True r])
  then have "grows f1 (snd (makedirs name e ro f))"
    using mkdir_leaf_grows [of f1 name e ro] grows_refl [of f1] by auto
  with made show ?thesis by (simp add: grows_def)
next
  case False
  then show ?thesis
    using makedirs_grows [of f name e ro] by (auto simp add: grows_def)
qed

lemma makedirs_there:
  assumes "path_isdir f name"
    and "fst (makedirs_parts name) = [] \<or> path_exists f (fst (makedirs_parts name))"
  shows "makedirs name True ro f = (Inr (), f)"
proof -
  have "makedirs name True ro f = mkdir_leaf name True ro f"
    using assms(2) by (intro makedirs_leaf) auto
  with assms(1) show ?thesis
    by (simp add: mkdir_leaf_there)
qed

lemma settled_grows: "grows f f1 \<Longrightarrow> settled f d \<Longrightarrow> settled f1 d"
  by (auto simp add: settled_def grows_def)

lemma makedirs_settled:
  assumes "fst (makedirs d e ro f) = Inr u" "plain d"
  shows "settled (snd (makedirs d e ro f)) d"
  using assms makedirs_isdir [of d e ro f u] makedirs_head_exists [of d e ro f u]
  by (auto simp add: settled_def plain_def)

lemma ensure_directories_Cons:
  "ensure_directories (d # ds) w =
     (case makedirs d True (readonly w) (fs w) of
        (Inl e, f1) \<Rightarrow> (Inl e, w\<lparr>fs := f1\<rparr>, [])
      | (Inr u, f1) \<Rightarrow>
          (case ensure_directories ds (w\<lparr>fs := f1\<rparr>) of
             (r, w2, evs) \<Rightarrow> (r, w2, Log INFO (''Directory '' @ d @ '' ensured.'') # evs)))"
proof -
  obtain r1 f1 where m: "makedirs d True (readonly w) (fs w) = (r1, f1)"
    by (cases "makedirs d True (readonly w) (fs w)")
  then have o: "os_makedirs d True w = (r1, w\<lparr>fs := f1\<rparr>, [])"
    by (simp add: os_makedirs_def)
  show ?thesis
  proof (cases r1)
    case (Inl e)
    with m o show ?thesis by (simp add: andthen_Inl)
  next
    case (Inr u)
    with m o show ?thesis by (simp add: andthen_Inr split: prod.splits)
  qed
qed

declare ensure_directories.simps(2) [simp del]

lemma ensure_directories_settles:
  assumes "fst (ensure_directories ds w) = Inr u" "\<forall>d \<in> set ds. plain d"
  shows "grows (fs w) (fs (fst (snd (ensure_directories ds w))))
         \<and> (\<forall>d \<in> set ds. settled (fs (fst (snd (ensure_directories ds w)))) d)"
  using assms
proof (induction ds arbitrary: w)
  case Nil
  show ?case by (simp add: ret_def grows_refl)
next
  case (Cons d ds)
  obtain r1 f1 where m: "makedirs d True (readonly w) (fs w) = (r1, f1)"
    by (cases "makedirs d True (readonly w) (fs w)")
  from Cons.prems(1) m obtain v where r1: "r1 = Inr v"
    by (cases r1) (simp_all add: ensure_directories_Cons)
  let ?w1 = "w\<lparr>fs := f1\<rparr>"
  have rest: "fst (ensure_directories ds ?w1) = Inr u"
    using Cons.prems(1) m r1 by (simp add: ensure_directories_Cons split: prod.splits)
  have fin: "fst (snd (ensure_directories (d # ds) w)) = fst (snd (ensure_directories ds ?w1))"
    using m r1 by (simp add: ensure_directories_Cons split: prod.splits)
  from Cons.IH [OF rest] Cons.prems(2)
  have ih: "grows f1 (fs (fst (snd (ensure_directories ds ?w1))))"
    "\<forall>d \<in> set ds. settled (fs (fst (snd (ensure_directories ds ?w1)))) d"
    by simp_all
  have g: "grows (fs w) f1"
    using makedirs_grows [of "fs w" d True "readonly w"] m by simp
  have s: "settled f1 d"
    using makedirs_settled [of d True "readonly w" "fs w" v] m r1 Cons.prems(2) by simp
  show ?case
    using fin ih g s grows_trans [OF g ih(1)] settled_grows [OF ih(1) s] by simp
qed

lemma ensure_directories_there:
  assumes "\<forall>d \<in> set ds. settled (fs w) d"
  shows "ensure_directories ds w =
           (Inr (), w, map (\<lambda>d. Log INFO (''Directory '' @ d @ '' ensured.'')) ds)"
  using assms
proof (induction ds)
  case Nil
  show ?case by (simp add: ret_def)
next
  case (Cons d ds)
  then have "makedirs d True (readonly w) (fs w) = (Inr (), fs w)"
    by (simp add: settled_def makedirs_there)
  with Cons show ?case
    by (simp add: ensure_directories_Cons)
qed

lemma directories_plain: "\<forall>d \<in> set directories. plain d"
  by code_simp


lemma setup_directories_unfold:
  "setup_directories w =
     (case ensure_directories directories w of
        (Inl e, w1, evs) \<Rightarrow> (Inl e, w1, evs)
      | (Inr u, w1, evs) \<Rightarrow> (Inr True, w1, evs))"
  by (simp add: setup_directories_def andthen_def ret_def split: prod.splits sum.splits)

text \<open>
  Claim C3. Whenever \<^verbatim>\<open>setup_directories\<close> returns, it returns true and each of the twelve
  listed paths is a directory; run again in the world it left, it returns true again,
  raises nothing and leaves that world, its directories included, exactly as it was.
\<close>

theorem setup_directories_idempotent:
  assumes "outcome (setup_directories w) = Inr b"
  shows "b
     \<and> list_all (path_isdir (fs (after (setup_directories w)))) directories
     \<and> setup_directories (after (setup_directories w)) =
         (Inr True, after (setup_directories w),
          map (\<lambda>d. Log INFO (''Directory '' @ d @ '' ensured.'')) directories)"
proof -
  obtain r1 w1 evs where e: "ensure_directories directories w = (r1, w1, evs)"
    by (cases "ensure_directories directories w")
  from assms e obtain u where r1: "r1 = Inr u" and b: "b"
    by (cases r1) (auto simp add: setup_directories_unfold outcome_def)
  have w1: "after (setup_directories w) = w1"
    using e r1 by (simp add: setup_directories_unfold after_def)
  have "\<forall>d \<in> set directories. settled (fs w1) d"
    using ensure_directories_settles [of directories w u] directories_plain e r1 by simp
  then have dirs: "list_all (path_isdir (fs w1)) directories"
    and again: "ensure_directories directories w1 =
      (Inr (), w1, map (\<lambda>d. Log INFO (''Directory '' @ d @ '' ensured.'')) directories)"
    by (simp_all add: ensure_directories_there list_all_iff settled_def)
  from again have "setup_directories w1 =
      (Inr True, w1, map (\<lambda>d. Log INFO (''Directory '' @ d @ '' ensured.'')) directories)"
    by (simp add: setup_directories_unfold)
  with b dirs w1 show ?thesis by simp
qed

theorem setup_directories_idempotent_witness:
  "outcome (setup_directories example_world) = Inr True
   \<and> list_all (path_isdir (fs (after (setup_directories example_world)))) directories
   \<and> outcome (setup_directories (after (setup_directories example_world))) = Inr True"
proof -
  have h: "outcome (setup_directories example_world) = Inr True"
    by code_simp
  show ?thesis
    using h setup_directories_idempotent [OF h] by (simp add: outcome_def)
qed

section \<open>The credential check\<close>

lemma persist_credentials_cases:
  "(\<exists>f1. persist_credentials u k w =
            (Inr (), w\<lparr>fs := f1\<rparr>, [Log INFO ''Kaggle credentials saved to ~/.kaggle/kaggle.json''])
          \<and> map_of f1 (expanduser ''~/.kaggle/kaggle.json'' w) =
              Some (File (JsonDoc (JObject [(''username'', JString u), (''key'', JString k)])) 384))
   \<or> (\<exists>e f1. persist_credentials u k w = (Inl e, w\<lparr>fs := f1\<rparr>, []))"
proof -
  let ?p = "expanduser ''~/.kaggle/kaggle.json'' w"
  let ?j = "JObject [(''username'', JString u), (''key'', JString k)]"
  let ?r = "fst (makedirs (expanduser ''~/.kaggle'' w) True (readonly w) (fs w))"
  let ?f = "snd (makedirs (expanduser ''~/.kaggle'' w) True (readonly w) (fs w))"
  let ?rest = "\<lambda>_::unit. andthen (write_json ?p ?j) (\<lambda>_.
     andthen (os_chmod ?p 384) (\<lambda>_.
     logger INFO ''Kaggle credentials saved to ~/.kaggle/kaggle.json''))"
  have start: "persist_credentials u k w = andthen (os_makedirs (expanduser ''~/.kaggle'' w) True) ?rest w"
    by (simp add: persist_credentials_def expanduser_join)
  show ?thesis
  proof (cases ?r)
    case (Inl e)
    then have "persist_credentials u k w = (Inl e, w\<lparr>fs := ?f\<rparr>, [])"
      unfolding start by (simp add: andthen_def os_makedirs_result)
    then show ?thesis by blast
  next
    case (Inr v)
    then have mk: "os_makedirs (expanduser ''~/.kaggle'' w) True w = (Inr (), w\<lparr>fs := ?f\<rparr>, [])"
      by (simp add: os_makedirs_result)
    from write_json_result [of ?p ?j "w\<lparr>fs := ?f\<rparr>"] show ?thesis
    proof
      assume "\<exists>m. write_json ?p ?j (w\<lparr>fs := ?f\<rparr>) =
                (Inr (), w\<lparr>fs := ?f\<rparr>\<lparr>fs := (?p, File (JsonDoc ?j) m) # fs (w\<lparr>fs := ?f\<rparr>)\<rparr>, [])"
      then obtain m where wr: "write_json ?p ?j (w\<lparr>fs := ?f\<rparr>) =
                (Inr (), w\<lparr>fs := (?p, File (JsonDoc ?j) m) # ?f\<rparr>, [])"
        by auto
      have "persist_credentials u k w =
              (Inr (), w\<lparr>fs := (?p, File (JsonDoc ?j) 384) # (?p, File (JsonDoc ?j) m) # ?f\<rparr>,
               [Log INFO ''Kaggle credentials saved to ~/.kaggle/kaggle.json''])"
        unfolding start
        by (simp add: andthen_def mk wr os_chmod_written logger_def)
      then show ?thesis by auto
    next
      assume "\<exists>e. write_json ?p ?j (w\<lparr>fs := ?f\<rparr>) = (Inl e, w\<lparr>fs := ?f\<rparr>, [])"
      then obtain e where wr: "write_json ?p ?j (w\<lparr>fs := ?f\<rparr>) = (Inl e, w\<lparr>fs := ?f\<rparr>, [])"
        by auto
      have "persist_credentials u k w = (Inl e, w\<lparr>fs := ?f\<rparr>, [])"
        unfolding start by (simp add: andthen_def mk wr)
      then show ?thesis by blast
    qed
  qed
qed

lemma quiet_actionI:
  "(\<And>w. list_all quiet (events (m w)) \<and> executable (after (m w)) = executable w) \<Longrightarrow> quiet_action m"
  by (simp add: quiet_action_def)

lemma quiet_ret: "quiet_action (ret x)"
  by (simp add: quiet_action_def ret_def events_def after_def)

lemma quiet_gets: "quiet_action (gets g)"
  by (simp add: quiet_action_def gets_def events_def after_def)

lemma quiet_logger: "l \<noteq> ERROR \<Longrightarrow> quiet_action (logger l msg)"
  by (simp add: quiet_action_def logger_def events_def after_def quiet_def)

lemma quiet_input: "quiet_action (input p)"
  by (simp add: quiet_action_def input_def events_def after_def quiet_def split: list.splits)

lemma quiet_environ_set: "quiet_action (environ_set k v)"
  by (simp add: quiet_action_def environ_set_def events_def after_def)

lemma quiet_andthen:
  assumes "quiet_action m" "\<And>x. quiet_action (f x)"
  shows "quiet_action (andthen m f)"
proof (rule quiet_actionI)
  fix w
  obtain r w1 evs where m: "m w = (r, w1, evs)"
    by (cases "m w")
  with assms(1) have q1: "list_all quiet evs" "executable w1 = executable w"
    by (auto simp add: quiet_action_def events_def after_def dest: spec [of _ w])
  show "list_all quiet (events (andthen m f w)) \<and> executable (after (andthen m f w)) = executable w"
  proof (cases r)
    case (Inl e)
    with m q1 show ?thesis by (simp add: andthen_def events_def after_def)
  next
    case (Inr x)
    obtain r2 w2 evs2 where f: "f x w1 = (r2, w2, evs2)"
      by (cases "f x w1")
    with assms(2) [of x] have "list_all quiet evs2" "executable w2 = executable w1"
      by (auto simp add: quiet_action_def events_def after_def dest: spec [of _ w1])
    with Inr m f q1 show ?thesis by (simp add: andthen_def events_def after_def)
  qed
qed

lemma quiet_persist_credentials: "quiet_action (persist_credentials u k)"
proof (rule quiet_actionI)
  fix w
  from persist_credentials_cases [of u k w]
  show "list_all quiet (events (persist_credentials u k w))
        \<and> executable (after (persist_credentials u k w)) = executable w"
    by (auto simp add: events_def after_def quiet_def)
qed

lemma quiet_enter_credentials: "quiet_action enter_credentials"
  unfolding enter_credentials_def
  by (intro quiet_andthen quiet_input quiet_environ_set quiet_ret)
     (simp add: quiet_persist_credentials quiet_ret)

lemma quiet_check_kaggle_credentials: "quiet_action check_kaggle_credentials"
  unfolding check_kaggle_credentials_def environ_get_def os_path_exists_def
  by (intro quiet_andthen quiet_gets)
     (auto intro!: quiet_andthen quiet_gets quiet_input quiet_logger quiet_ret quiet_enter_credentials)

section \<open>The stages of the cascade\<close>

lemma run_script_eq:
  "run_script s d f w =
     (if fst (proc w [executable w, s] (environ w) (fs w)) = 0
      then (Inr True, w\<lparr>fs := snd (proc w [executable w, s] (environ w) (fs w))\<rparr>,
            [Spawn [executable w, s] 0, Log INFO d])
      else (Inr False, w\<lparr>fs := snd (proc w [executable w, s] (environ w) (fs w))\<rparr>,
            [Spawn [executable w, s] (fst (proc w [executable w, s] (environ w) (fs w))),
             Log ERROR f]))"
  by (simp add: run_script_def try_except_def andthen_def check_call_def Let_def logger_def
      ret_def gets_def)

lemma missing_or_fewer_eq: "missing_or_fewer d n w = (folder_check (fs w) d n, w, [])"
  by (cases "listdir (fs w) d")
     (simp_all add: missing_or_fewer_def or_else_def os_path_exists_def os_listdir_def
       andthen_def ret_def gets_def folder_check_def)

lemma or_else_eq:
  assumes "a w = (x, w, [])" "b w = (y, w, [])"
  shows "or_else a b w = (either_check x y, w, [])"
proof (cases x)
  case (Inl e)
  with assms show ?thesis by (simp add: or_else_def andthen_def either_check_def)
next
  case (Inr v)
  with assms show ?thesis by (simp add: or_else_def andthen_def either_check_def ret_def)
qed

lemma datasets_incomplete_eq:
  "datasets_incomplete w =
     (either_check (folder_check (fs w) positive_dir 10) (folder_check (fs w) negative_dir 10), w, [])"
  unfolding datasets_incomplete_def by (intro or_else_eq missing_or_fewer_eq)

lemma test_samples_incomplete_eq:
  "test_samples_incomplete w =
     (either_check (folder_check (fs w) test_pos_dir 5) (folder_check (fs w) test_neg_dir 5), w, [])"
  unfolding test_samples_incomplete_def by (intro or_else_eq missing_or_fewer_eq)

lemma training_stage_eq:
  "training_stage w =
     (case run_script ''retrain_model.py'' ''Model training completed successfully.''
             ''Failed to train the model.'' w of
        (r, w2, evs) \<Rightarrow> (r, w2, Log INFO ''Training the model...'' # evs))"
  by (simp add: training_stage_def)

lemma test_samples_stage_eq:
  "test_samples_stage w =
     (case outcome (test_samples_incomplete w) of
        Inl e \<Rightarrow> (Inl e, w, [])
      | Inr incomplete \<Rightarrow>
          if incomplete then
            (case run_script ''prepare_test_samples.py'' ''Test samples prepared successfully.''
                    ''Failed to prepare test samples.'' w of
               (r, w2, evs) \<Rightarrow>
                 (r, w2, Log INFO ''Test samples not found or incomplete. Preparing...'' # evs))
          else (Inr True, w, [Log INFO ''Test samples already prepared.'']))"
  by (simp add: test_samples_stage_def andthen_def [of test_samples_incomplete]
      test_samples_incomplete_eq outcome_def ret_def split: sum.splits)

lemma download_stage_eq:
  "download_stage w =
     (case outcome (datasets_incomplete w) of
        Inl e \<Rightarrow> (Inl e, w, [])
      | Inr incomplete \<Rightarrow>
          if incomplete then
            (case check_kaggle_credentials w of
               (Inl e, wc, evc) \<Rightarrow>
                 (Inl e, wc,
                  Log INFO ''Datasets not found or incomplete. Preparing to download...'' # evc)
             | (Inr ready, wc, evc) \<Rightarrow>
                 if ready then
                   (case run_script ''prepare_kaggle_data.py''
                           ''Dataset preparation completed successfully.''
                           ''Failed to prepare datasets.'' wc of
                      (r, w2, evs) \<Rightarrow>
                        (r, w2,
                         Log INFO ''Datasets not found or incomplete. Preparing to download...''
                         # evc @ Log INFO ''Running prepare_kaggle_data.py...'' # evs))
                 else
                   (Inr False, wc,
                    Log INFO ''Datasets not found or incomplete. Preparing to download...''
                    # evc @ [Log ERROR ''Cannot prepare datasets without Kaggle credentials.'']))
          else (Inr True, w, [Log INFO ''Datasets already downloaded.'']))"
  by (simp add: download_stage_def andthen_def [of datasets_incomplete]
      andthen_def [of check_kaggle_credentials]
      datasets_incomplete_eq outcome_def ret_def split: sum.splits prod.splits)

lemma run_data_preparation_eq:
  assumes "\<not> path_exists (fs w) ''model/leprosy_classifier.pkl''"
  shows "run_data_preparation w =
     (case download_stage w of
        (Inl e, w1, e1) \<Rightarrow> (Inl e, w1, e1)
      | (Inr go1, w1, e1) \<Rightarrow>
          if \<not> go1 then (Inr False, w1, e1)
          else (case test_samples_stage w1 of
                  (Inl e, w2, e2) \<Rightarrow> (Inl e, w2, e1 @ e2)
                | (Inr go2, w2, e2) \<Rightarrow>
                    if \<not> go2 then (Inr False, w2, e1 @ e2)
                    else (case training_stage w2 of
                            (Inl e, w3, e3) \<Rightarrow> (Inl e, w3, e1 @ e2 @ e3)
                          | (Inr go3, w3, e3) \<Rightarrow> (Inr go3, w3, e1 @ e2 @ e3))))"
  using assms
  by (simp add: run_data_preparation_def os_path_exists_def andthen_def [of download_stage]
      andthen_def [of test_samples_stage] andthen_def [of training_stage] ret_def
      split: sum.splits prod.splits)

lemma quiet_facts:
  assumes "list_all quiet evs"
  shows "failed_spawns evs = []" "script_spawns exe s evs = []" "spawns evs = []"
    "filter failed_script evs = []" "directories_failure \<notin> set evs"
  using assms
  by (induction evs)
     (auto simp add: quiet_def failed_spawns_def script_spawns_def spawns_def failed_script_def
       directories_failure_def split: event.splits)

lemma check_kaggle_credentials_quiet:
  assumes "check_kaggle_credentials w = (r, wc, evc)"
  shows "list_all quiet evc" "executable wc = executable w"
  using quiet_check_kaggle_credentials assms
  by (auto simp add: quiet_action_def events_def after_def dest: spec [of _ w])

lemma failed_spawns_append: "failed_spawns (xs @ ys) = failed_spawns xs @ failed_spawns ys"
  by (simp add: failed_spawns_def)

lemma script_spawns_append: "script_spawns exe s (xs @ ys) = script_spawns exe s xs @ script_spawns exe s ys"
  by (simp add: script_spawns_def)

lemma run_script_facts:
  "reports_failure (run_script s d f w)"
  "executable (after (run_script s d f w)) = executable w"
  "s \<noteq> s' \<Longrightarrow> script_spawns exe s' (events (run_script s d f w)) = []"
  "f \<noteq> ''Setup failed: Could not create required directories.''
     \<Longrightarrow> directories_failure \<notin> set (events (run_script s d f w))"
  "failed_spawns (events (run_script s d f w)) = [] \<longleftrightarrow> outcome (run_script s d f w) = Inr True"
  by (simp_all add: run_script_eq reports_failure_def outcome_def events_def after_def
      failed_spawns_def script_spawns_def is_error_log_def directories_failure_def)

lemma reports_failure_after:
  assumes "reports_failure (r, w2, evs)" "failed_spawns pre = []"
  shows "reports_failure (r, w3, pre @ evs)"
  using assms
  by (auto simp add: reports_failure_def outcome_def events_def failed_spawns_append)

lemma training_stage_facts:
  "reports_failure (training_stage w)"
  "executable (after (training_stage w)) = executable w"
  "script_spawns exe ''prepare_kaggle_data.py'' (events (training_stage w)) = []"
  "directories_failure \<notin> set (events (training_stage w))"
  by (simp_all add: training_stage_eq run_script_eq reports_failure_def outcome_def events_def
      after_def failed_spawns_def script_spawns_def is_error_log_def directories_failure_def)

lemma test_samples_stage_facts:
  "reports_failure (test_samples_stage w)"
  "executable (after (test_samples_stage w)) = executable w"
  "script_spawns exe ''prepare_kaggle_data.py'' (events (test_samples_stage w)) = []"
  "directories_failure \<notin> set (events (test_samples_stage w))"
  by (simp_all add: test_samples_stage_eq run_script_eq reports_failure_def outcome_def events_def
      after_def failed_spawns_def script_spawns_def is_error_log_def directories_failure_def
      split: sum.splits)

lemma download_stage_facts:
  "reports_failure (download_stage w)"
  "executable (after (download_stage w)) = executable w"
  "directories_failure \<notin> set (events (download_stage w))"
  "script_spawns (executable w) ''prepare_kaggle_data.py'' (events (download_stage w)) \<noteq> []
   \<longleftrightarrow> outcome (datasets_incomplete w) = Inr True \<and> outcome (check_kaggle_credentials w) = Inr True"
proof -
  obtain rc wc evc where c: "check_kaggle_credentials w = (rc, wc, evc)"
    by (cases "check_kaggle_credentials w")
  note q = check_kaggle_credentials_quiet [OF c]
  note qf = quiet_facts [OF q(1)]
  have all: "reports_failure (download_stage w)
    \<and> executable (after (download_stage w)) = executable w
    \<and> directories_failure \<notin> set (events (download_stage w))
    \<and> (script_spawns (executable w) ''prepare_kaggle_data.py'' (events (download_stage w)) \<noteq> []
   \<longleftrightarrow> outcome (datasets_incomplete w) = Inr True \<and> outcome (check_kaggle_credentials w) = Inr True)"
  proof (cases "outcome (datasets_incomplete w)")
    case (Inl e)
    then show ?thesis
      by (simp add: download_stage_eq reports_failure_def outcome_def events_def after_def
          failed_spawns_def script_spawns_def directories_failure_def)
  next
    case (Inr incomplete)
    show ?thesis
    proof (cases incomplete)
      case False
      with Inr show ?thesis
        by (simp add: download_stage_eq reports_failure_def outcome_def events_def after_def
            failed_spawns_def script_spawns_def directories_failure_def)
    next
      case True
      show ?thesis
      proof (cases rc)
        case (Inl e)
        with Inr True c q qf show ?thesis
          by (simp add: download_stage_eq reports_failure_def outcome_def events_def after_def
              failed_spawns_def script_spawns_def directories_failure_def)
      next
        case ready: (Inr ready)
        show ?thesis
        proof (cases ready)
          case False
          with Inr True c q qf ready show ?thesis
            by (simp add: download_stage_eq reports_failure_def outcome_def events_def after_def
                failed_spawns_append script_spawns_append is_error_log_def)
               (simp add: failed_spawns_def script_spawns_def directories_failure_def)
        next
          case go: True
          with Inr True c q qf ready show ?thesis
            by (simp add: download_stage_eq run_script_eq reports_failure_def outcome_def
                events_def after_def failed_spawns_append script_spawns_append is_error_log_def)
               (simp add: failed_spawns_def script_spawns_def directories_failure_def)
        qed
      qed
    qed
  qed
  from all show "reports_failure (download_stage w)"
    "executable (after (download_stage w)) = executable w"
    "directories_failure \<notin> set (events (download_stage w))"
    "script_spawns (executable w) ''prepare_kaggle_data.py'' (events (download_stage w)) \<noteq> []
   \<longleftrightarrow> outcome (datasets_incomplete w) = Inr True \<and> outcome (check_kaggle_credentials w) = Inr True"
    by simp_all
qed

lemma run_data_preparation_present:
  assumes "path_exists (fs w) ''model/leprosy_classifier.pkl''"
  shows "run_data_preparation w =
           (Inr True, w, [Log INFO ''Model already exists. Skipping data preparation and training.''])"
  using assms by (simp add: run_data_preparation_def os_path_exists_def ret_def)

lemma run_data_preparation_facts:
  "reports_failure (run_data_preparation w)"
  "directories_failure \<notin> set (events (run_data_preparation w))"
  "\<not> path_exists (fs w) ''model/leprosy_classifier.pkl'' \<Longrightarrow>
     script_spawns (executable w) ''prepare_kaggle_data.py'' (events (run_data_preparation w))
     = script_spawns (executable w) ''prepare_kaggle_data.py'' (events (download_stage w))"
proof -
  have all: "reports_failure (run_data_preparation w)
    \<and> directories_failure \<notin> set (events (run_data_preparation w))
    \<and> (\<not> path_exists (fs w) ''model/leprosy_classifier.pkl'' \<longrightarrow>
     script_spawns (executable w) ''prepare_kaggle_data.py'' (events (run_data_preparation w))
     = script_spawns (executable w) ''prepare_kaggle_data.py'' (events (download_stage w)))"
  proof (cases "path_exists (fs w) ''model/leprosy_classifier.pkl''")
    case True
    then show ?thesis
      by (simp add: run_data_preparation_present reports_failure_def outcome_def events_def
          failed_spawns_def directories_failure_def)
  next
    case False
    note eq = run_data_preparation_eq [OF False]
    obtain r1 w1 e1 where s1: "download_stage w = (r1, w1, e1)"
      by (cases "download_stage w")
    obtain r2 w2 e2 where s2: "test_samples_stage w1 = (r2, w2, e2)"
      by (cases "test_samples_stage w1")
    obtain r3 w3 e3 where s3: "training_stage w2 = (r3, w3, e3)"
      by (cases "training_stage w2")
    from download_stage_facts(1-3) [of w] s1
    have f1: "reports_failure (r1, w1, e1)" "executable w1 = executable w"
      "directories_failure \<notin> set e1"
      by (simp_all add: events_def after_def)
    from test_samples_stage_facts(1,2,4) [of w1] test_samples_stage_facts(3) [of "executable w" w1] s2
    have f2: "reports_failure (r2, w2, e2)" "executable w2 = executable w1"
      "script_spawns (executable w) ''prepare_kaggle_data.py'' e2 = []"
      "directories_failure \<notin> set e2"
      by (simp_all add: events_def after_def)
    from training_stage_facts(1,2,4) [of w2] training_stage_facts(3) [of "executable w" w2] s3
    have f3: "reports_failure (r3, w3, e3)" "executable w3 = executable w2"
      "script_spawns (executable w) ''prepare_kaggle_data.py'' e3 = []"
      "directories_failure \<notin> set e3"
      by (simp_all add: events_def after_def)
    show ?thesis
    proof (cases "r1 = Inr True")
      case go1: False
      then have "run_data_preparation w = (r1, w1, e1)"
        using s1 by (cases r1) (auto simp add: eq)
      with f1 False s1 show ?thesis by (simp add: events_def)
    next
      case go1: True
      then have n1: "failed_spawns e1 = []"
        using f1(1) by (simp add: reports_failure_def outcome_def events_def)
      show ?thesis
      proof (cases "r2 = Inr True")
        case go2: False
        then have "run_data_preparation w = (r2, w2, e1 @ e2)"
          using s1 s2 go1 by (cases r2) (auto simp add: eq)
        with f1 f2 False s1 n1 reports_failure_after [OF f2(1) n1] show ?thesis
          by (simp add: events_def script_spawns_append)
      next
        case go2: True
        then have n2: "failed_spawns (e1 @ e2) = []"
          using f2(1) n1 by (simp add: reports_failure_def outcome_def events_def failed_spawns_append)
        have "run_data_preparation w = (r3, w3, (e1 @ e2) @ e3)"
          using s1 s2 s3 go1 go2 by (cases r3) (auto simp add: eq)
        with f1 f2 f3 False s1 reports_failure_after [OF f3(1) n2] show ?thesis
          by (simp add: events_def script_spawns_append)
      qed
    qed
  qed
  from all show "reports_failure (run_data_preparation w)"
    "directories_failure \<notin> set (events (run_data_preparation w))"
    "\<not> path_exists (fs w) ''model/leprosy_classifier.pkl'' \<Longrightarrow>
     script_spawns (executable w) ''prepare_kaggle_data.py'' (events (run_data_preparation w))
     = script_spawns (executable w) ''prepare_kaggle_data.py'' (events (download_stage w))"
    by simp_all
qed

section \<open>The top-level routine\<close>

lemma compiled_eq:
  "compiled w = (if below_3_6 w then (Inl SyntaxError, w, []) else (Inr (), w, []))"
  by (simp add: compiled_def below_3_6_def)

lemma below_3_6_below_3_8: "below_3_6 w \<Longrightarrow> below_3_8 w"
  by (auto simp add: below_3_6_def below_3_8_def)

lemma check_python_version_eq:
  "check_python_version w =
     (if below_3_6 w then (Inl SyntaxError, w, [])
      else if below_3_8 w then (Inr False, w, [Log ERROR ''Python 3.8 or higher is required.''])
      else (Inr True, w, tl (preamble w)))"
  by (cases "version_info w")
     (simp add: check_python_version_def andthen_def [of compiled] compiled_eq below_3_8_def
       preamble_def ret_def)

lemma main_below_3_6:
  assumes "below_3_6 w"
  shows "main w = (Inl SyntaxError, w, [])"
  using assms by (simp add: main_def andthen_def [of compiled] compiled_eq)

lemma main_below_3_8:
  assumes "below_3_8 w" "\<not> below_3_6 w"
  shows "main w = (Inr False, w,
          [Log INFO ''Starting setup for Leprosy Detection AI Application...'',
           Log ERROR ''Python 3.8 or higher is required.'',
           Log ERROR ''Setup failed: Incompatible Python version.''])"
  using assms
  by (simp add: main_def andthen_def [of compiled] compiled_eq
      andthen_def [of check_python_version] check_python_version_eq ret_def)

lemma main_gate_events:
  assumes "below_3_8 w"
  shows "events (main w) = []
     \<or> events (main w) =
          [Log INFO ''Starting setup for Leprosy Detection AI Application...'',
           Log ERROR ''Python 3.8 or higher is required.'',
           Log ERROR ''Setup failed: Incompatible Python version.'']"
  using assms main_below_3_6 [of w] main_below_3_8 [of w]
  by (cases "below_3_6 w") (simp_all add: events_def)

lemma main_eq:
  assumes "\<not> below_3_8 w"
  shows "main w =
     (case check_dependencies w of
        (Inl e, w1, e1) \<Rightarrow> (Inl e, w1, preamble w @ e1)
      | (Inr ok, w1, e1) \<Rightarrow>
          (case setup_directories w1 of
             (Inl e, w2, e2) \<Rightarrow> (Inl e, w2, preamble w @ e1 @ dependency_warning ok @ e2)
           | (Inr made, w2, e2) \<Rightarrow>
               if \<not> made
               then (Inr False, w2,
                     preamble w @ e1 @ dependency_warning ok @ e2 @ [directories_failure])
               else (case run_data_preparation w2 of
                       (Inl e, w3, e3) \<Rightarrow>
                         (Inl e, w3, preamble w @ e1 @ dependency_warning ok @ e2 @ e3)
                     | (Inr prepared, w3, e3) \<Rightarrow>
                         (Inr True, w3,
                          preamble w @ e1 @ dependency_warning ok @ e2 @ e3
                          @ preparation_warning prepared @ epilogue))))"
proof -
  have old: "\<not> below_3_6 w"
    using assms below_3_6_below_3_8 [of w] by blast
  show ?thesis
    using assms old
    by (simp add: main_def andthen_def [of compiled] compiled_eq
      andthen_def [of check_python_version] check_python_version_eq
      andthen_def [of check_dependencies] andthen_def [of setup_directories]
      andthen_def [of run_data_preparation] andthen_def [of "if _ then _ else _"]
      logger_def ret_def preamble_def dependency_warning_def preparation_warning_def epilogue_def
      directories_failure_def
      split: sum.splits prod.splits)
qed

lemma lower_char_y: "lower_char c = CHR ''y'' \<longleftrightarrow> c = CHR ''y'' \<or> c = CHR ''Y''"
proof -
  have "c = CHR ''Y''" if "65 \<le> (of_char c :: nat)" "(of_char c :: nat) \<le> 90"
    "char_of ((of_char c :: nat) + 32) = CHR ''y''"
  proof -
    from that(3) have "(of_char (char_of ((of_char c :: nat) + 32)) :: nat) = of_char CHR ''y''"
      by simp
    with that(2) have "(of_char c :: nat) = of_char CHR ''Y''"
      by simp
    then show ?thesis
      by (simp only: of_char_eq_iff)
  qed
  moreover have "lower_char CHR ''Y'' = CHR ''y''"
  proof -
    have "(of_char (char_of (121 :: nat) :: char) :: nat) = of_char CHR ''y''"
      by simp
    then have "char_of (121 :: nat) = CHR ''y''"
      by (simp only: of_char_eq_iff)
    then show ?thesis
      by (simp add: lower_char_def)
  qed
  moreover have "lower_char CHR ''y'' = CHR ''y''"
    by (simp add: lower_char_def)
  ultimately show ?thesis
    by (auto simp add: lower_char_def split: if_splits)
qed

lemma lower_y: "lower s = ''y'' \<longleftrightarrow> s = ''y'' \<or> s = ''Y''"
  by (cases s) (auto simp add: lower_def lower_char_y)

section \<open>The version gate\<close>

text \<open>
  On Python 3.6 and 3.7 the gate works: \<^verbatim>\<open>check_python_version\<close> returns false, and
  \<^verbatim>\<open>main\<close> returns false having done nothing but write three log records: the world
  is as it was (no import was tried, nothing was read from standard input, no directory
  was made, no process was started), and the exit code is 1.
\<close>

lemma version_gate_on_3_6_and_3_7:
  assumes "below_3_8 w" "\<not> below_3_6 w"
  shows "check_python_version w = (Inr False, w, [Log ERROR ''Python 3.8 or higher is required.''])
     \<and> main w = (Inr False, w,
          [Log INFO ''Starting setup for Leprosy Detection AI Application...'',
           Log ERROR ''Python 3.8 or higher is required.'',
           Log ERROR ''Setup failed: Incompatible Python version.''])
     \<and> exit_code w = 1"
  using assms
  by (simp add: check_python_version_eq main_below_3_8 exit_code_def outcome_def)

text \<open>
  On every interpreter older than 3.8 no stage after the gate runs and the exit code is
  not 0: the world is as it was, and no import, prompt or child process is among the
  events.
\<close>

lemma old_interpreter_runs_no_stage:
  assumes "below_3_8 w"
  shows "after (main w) = w \<and> list_all is_log (events (main w)) \<and> exit_code w = 1"
  using assms main_below_3_6 [of w] main_below_3_8 [of w]
  by (cases "below_3_6 w") (simp_all add: after_def events_def exit_code_def outcome_def is_log_def)

text \<open>
  Claim C4, at the failing input. Python 3.5 is below 3.8, yet \<^verbatim>\<open>check_python_version\<close>
  does not return false and \<^verbatim>\<open>main\<close> does not return failure: the file does not
  compile, so both end with \<^verbatim>\<open>SyntaxError\<close>, no record is logged, in particular not
  "Python 3.8 or higher is required.", and the exit code 1 comes from the uncaught
  exception.
\<close>

theorem old_interpreter_fails_to_compile:
  "below_3_8 python_3_5_world
   \<and> check_python_version python_3_5_world = (Inl SyntaxError, python_3_5_world, [])
   \<and> outcome (check_python_version python_3_5_world) \<noteq> Inr False
   \<and> main python_3_5_world = (Inl SyntaxError, python_3_5_world, [])
   \<and> outcome (main python_3_5_world) \<noteq> Inr False
   \<and> exit_code python_3_5_world = 1"
proof -
  have old: "below_3_6 python_3_5_world"
    by (simp add: below_3_6_def python_3_5_world_def)
  then have gate: "below_3_8 python_3_5_world"
    by (rule below_3_6_below_3_8)
  from old have c: "check_python_version python_3_5_world = (Inl SyntaxError, python_3_5_world, [])"
    by (simp add: check_python_version_eq)
  from old have m: "main python_3_5_world = (Inl SyntaxError, python_3_5_world, [])"
    by (rule main_below_3_6)
  from gate c m show ?thesis
    by (simp add: outcome_def exit_code_def)
qed

section \<open>Dependencies and directories inside the whole run\<close>

lemma install_missing_none: "install_missing [] w = (Inr True, w, [])"
  by (simp add: install_missing_def ret_def)

lemma install_missing_eof:
  assumes "ms \<noteq> []" "stdin w = []"
  shows "install_missing ms w =
           (Inl EOFError, w,
            [Log ERROR (''Missing packages: '' @ join '', '' ms),
             Prompt ''Do you want to install missing packages? (y/n): ''])"
  using assms by (simp add: install_missing_def andthen_input)

lemma install_missing_answer:
  assumes "ms \<noteq> []" "stdin w = s # rest"
  shows "install_missing ms w =
     (if lower s = ''y'' then
        (if fst (proc w ([executable w, ''-m'', ''pip'', ''install''] @ ms) (environ w) (fs w)) = 0
         then (Inr True,
               w\<lparr>stdin := rest,
                 fs := snd (proc w ([executable w, ''-m'', ''pip'', ''install''] @ ms) (environ w) (fs w))\<rparr>,
               [Log ERROR (''Missing packages: '' @ join '', '' ms),
                Prompt ''Do you want to install missing packages? (y/n): '',
                Spawn ([executable w, ''-m'', ''pip'', ''install''] @ ms) 0,
                Log INFO ''Packages installed successfully.''])
         else (Inr False,
               w\<lparr>stdin := rest,
                 fs := snd (proc w ([executable w, ''-m'', ''pip'', ''install''] @ ms) (environ w) (fs w))\<rparr>,
               [Log ERROR (''Missing packages: '' @ join '', '' ms),
                Prompt ''Do you want to install missing packages? (y/n): '',
                Spawn ([executable w, ''-m'', ''pip'', ''install''] @ ms)
                  (fst (proc w ([executable w, ''-m'', ''pip'', ''install''] @ ms) (environ w) (fs w))),
                Log ERROR ''Failed to install packages.'']))
      else (Inr False, w\<lparr>stdin := rest\<rparr>,
            [Log ERROR (''Missing packages: '' @ join '', '' ms),
             Prompt ''Do you want to install missing packages? (y/n): '',
             Log WARNING ''Continuing without installing missing packages.'']))"
  using assms
  by (simp add: install_missing_def andthen_input try_except_def andthen_def [of "check_call _"]
      check_call_def Let_def logger_def ret_def)

lemma install_missing_facts:
  "filter failed_script (events (install_missing ms w)) = []"
  "directories_failure \<notin> set (events (install_missing ms w))"
  "failed_spawns (events (install_missing ms w)) \<noteq> [] \<longrightarrow>
     outcome (install_missing ms w) = Inr False \<and> is_error_log (last (events (install_missing ms w)))"
proof -
  have "filter failed_script (events (install_missing ms w)) = []
    \<and> directories_failure \<notin> set (events (install_missing ms w))
    \<and> (failed_spawns (events (install_missing ms w)) \<noteq> [] \<longrightarrow>
     outcome (install_missing ms w) = Inr False \<and> is_error_log (last (events (install_missing ms w))))"
  proof (cases "ms = []")
    case True
    then show ?thesis
      by (simp add: install_missing_none events_def outcome_def failed_spawns_def)
  next
    case False
    show ?thesis
    proof (cases "stdin w")
      case Nil
      with False show ?thesis
        by (simp add: install_missing_eof events_def outcome_def failed_spawns_def
            failed_script_def directories_failure_def)
    next
      case (Cons s rest)
      with False show ?thesis
        by (simp add: install_missing_answer events_def outcome_def failed_spawns_def
            failed_script_def directories_failure_def is_error_log_def data_scripts_def)
    qed
  qed
  then show "filter failed_script (events (install_missing ms w)) = []"
    "directories_failure \<notin> set (events (install_missing ms w))"
    "failed_spawns (events (install_missing ms w)) \<noteq> [] \<longrightarrow>
     outcome (install_missing ms w) = Inr False \<and> is_error_log (last (events (install_missing ms w)))"
    by simp_all
qed

lemma probe_events_quiet: "list_all quiet (concat (map (probe_events w) ps))"
  by (induction ps) (simp_all add: probe_events_def quiet_def)

lemma check_dependencies_eq:
  "check_dependencies w =
     (case install_missing
             (filter (\<lambda>p. replace CHR ''-'' CHR ''_'' p \<notin> set (importable w)) required_packages) w of
        (r, w1, evs) \<Rightarrow> (r, w1, concat (map (probe_events w) required_packages) @ evs))"
  by (simp add: check_dependencies_def andthen_Inr [OF probe_packages_eq])

lemma check_dependencies_facts:
  "filter failed_script (events (check_dependencies w)) = []"
  "directories_failure \<notin> set (events (check_dependencies w))"
  "failed_spawns (events (check_dependencies w)) \<noteq> [] \<longrightarrow>
     outcome (check_dependencies w) = Inr False \<and> is_error_log (last (events (check_dependencies w)))"
proof -
  let ?ms = "filter (\<lambda>p. replace CHR ''-'' CHR ''_'' p \<notin> set (importable w)) required_packages"
  obtain r w1 evs where i: "install_missing ?ms w = (r, w1, evs)"
    by (cases "install_missing ?ms w")
  note q = quiet_facts [OF probe_events_quiet [of w required_packages]]
  from install_missing_facts [of ?ms w] i
  have f: "filter failed_script evs = []" "directories_failure \<notin> set evs"
    "failed_spawns evs \<noteq> [] \<longrightarrow> r = Inr False \<and> is_error_log (last evs)"
    by (simp_all add: events_def outcome_def)
  have e: "check_dependencies w = (r, w1, concat (map (probe_events w) required_packages) @ evs)"
    by (simp add: check_dependencies_eq i)
  show "filter failed_script (events (check_dependencies w)) = []"
    using e f(1) q(4) by (simp add: events_def)
  show "directories_failure \<notin> set (events (check_dependencies w))"
    using e f(2) q(5) by (simp add: events_def)
  show "failed_spawns (events (check_dependencies w)) \<noteq> [] \<longrightarrow>
     outcome (check_dependencies w) = Inr False \<and> is_error_log (last (events (check_dependencies w)))"
  proof
    assume "failed_spawns (events (check_dependencies w)) \<noteq> []"
    then have ne: "failed_spawns evs \<noteq> []"
      using e q(1) by (simp add: events_def failed_spawns_append)
    then have "evs \<noteq> []"
      by (auto simp add: failed_spawns_def)
    with ne f(3) e show "outcome (check_dependencies w) = Inr False
        \<and> is_error_log (last (events (check_dependencies w)))"
      by (simp add: events_def outcome_def)
  qed
qed

lemma ensure_directories_quiet: "list_all quiet (events (ensure_directories ds w))"
proof (induction ds arbitrary: w)
  case Nil
  show ?case by (simp add: ret_def events_def)
next
  case (Cons d ds)
  obtain r1 f1 where m: "makedirs d True (readonly w) (fs w) = (r1, f1)"
    by (cases "makedirs d True (readonly w) (fs w)")
  show ?case
  proof (cases r1)
    case (Inl e)
    with m show ?thesis by (simp add: ensure_directories_Cons events_def)
  next
    case (Inr u)
    obtain r2 w2 e2 where rest: "ensure_directories ds (w\<lparr>fs := f1\<rparr>) = (r2, w2, e2)"
      by (cases "ensure_directories ds (w\<lparr>fs := f1\<rparr>)")
    with Cons.IH [of "w\<lparr>fs := f1\<rparr>"] have "list_all quiet e2"
      by (simp add: events_def)
    moreover have "quiet (Log INFO (''Directory '' @ d @ '' ensured.''))"
      by (simp add: quiet_def)
    ultimately show ?thesis
      using Inr m rest by (simp add: ensure_directories_Cons events_def)
  qed
qed

lemma setup_directories_facts:
  "outcome (setup_directories w) \<noteq> Inr False"
  "list_all quiet (events (setup_directories w))"
  using ensure_directories_quiet [of directories w]
  by (auto simp add: setup_directories_unfold outcome_def events_def split: prod.splits sum.splits)

section \<open>Failure of the directory setup\<close>

lemma frame_quiet:
  "list_all quiet (preamble w)" "list_all quiet (dependency_warning ok)"
  "list_all quiet (preparation_warning prepared)" "list_all quiet epilogue"
  by (simp_all add: preamble_def dependency_warning_def preparation_warning_def epilogue_def
      quiet_def)

lemma failed_script_failed_spawn:
  "filter failed_script evs \<noteq> [] \<Longrightarrow> failed_spawns evs \<noteq> []"
  by (induction evs) (auto simp add: failed_script_def failed_spawns_def split: event.splits)

text \<open>
  The run of \<^verbatim>\<open>main\<close> on an interpreter that passes the gate, stage by stage: it ends
  with an exception of one of the three stages, or it returns true after all of them.
\<close>

lemma main_stages:
  assumes "\<not> below_3_8 w"
  obtains
    (dependencies) e w1 e1 where "check_dependencies w = (Inl e, w1, e1)"
      "main w = (Inl e, w1, preamble w @ e1)"
  | (directories) ok w1 e1 e w2 e2 where "check_dependencies w = (Inr ok, w1, e1)"
      "setup_directories w1 = (Inl e, w2, e2)"
      "main w = (Inl e, w2, preamble w @ e1 @ dependency_warning ok @ e2)"
  | (preparation) ok w1 e1 w2 e2 e w3 e3 where "check_dependencies w = (Inr ok, w1, e1)"
      "setup_directories w1 = (Inr True, w2, e2)"
      "run_data_preparation w2 = (Inl e, w3, e3)"
      "main w = (Inl e, w3, preamble w @ e1 @ dependency_warning ok @ e2 @ e3)"
  | (completed) ok w1 e1 w2 e2 prepared w3 e3 where "check_dependencies w = (Inr ok, w1, e1)"
      "setup_directories w1 = (Inr True, w2, e2)"
      "run_data_preparation w2 = (Inr prepared, w3, e3)"
      "main w = (Inr True, w3, preamble w @ e1 @ dependency_warning ok @ e2 @ e3
                  @ preparation_warning prepared @ epilogue)"
proof -
  obtain r1 w1 e1 where d: "check_dependencies w = (r1, w1, e1)"
    by (cases "check_dependencies w")
  obtain r2 w2 e2 where s: "setup_directories w1 = (r2, w2, e2)"
    by (cases "setup_directories w1")
  obtain r3 w3 e3 where p: "run_data_preparation w2 = (r3, w3, e3)"
    by (cases "run_data_preparation w2")
  show thesis
  proof (cases r1)
    case (Inl e)
    with d show thesis
      by (intro dependencies [of e w1 e1]) (simp_all add: main_eq [OF assms])
  next
    case ok: (Inr ok)
    show thesis
    proof (cases r2)
      case (Inl e)
      with d s ok show thesis
        by (intro directories [of ok w1 e1 e w2 e2]) (simp_all add: main_eq [OF assms])
    next
      case (Inr made)
      with setup_directories_facts(1) [of w1] s have made: "r2 = Inr True"
        by (cases made) (simp_all add: outcome_def)
      show thesis
      proof (cases r3)
        case (Inl e)
        with d s p ok made show thesis
          by (intro preparation [of ok w1 e1 w2 e2 e w3 e3]) (simp_all add: main_eq [OF assms])
      next
        case (Inr prepared)
        with d s p ok made show thesis
          by (intro completed [of ok w1 e1 w2 e2 prepared w3 e3]) (simp_all add: main_eq [OF assms])
      qed
    qed
  qed
qed

lemma main_without_directories_failure:
  "directories_failure \<notin> set (events (main w))"
proof (cases "below_3_8 w")
  case True
  from main_gate_events [OF True] show ?thesis
    by (auto simp add: directories_failure_def)
next
  case False
  note f = frame_quiet [THEN quiet_facts(5)]
  from False show ?thesis
  proof (cases rule: main_stages)
    case (dependencies e w1 e1)
    with check_dependencies_facts(2) [of w] f show ?thesis
      by (simp add: events_def)
  next
    case (directories ok w1 e1 e w2 e2)
    with check_dependencies_facts(2) [of w] f
      setup_directories_facts(2) [of w1, THEN quiet_facts(5)]
    show ?thesis
      by (simp add: events_def)
  next
    case (preparation ok w1 e1 w2 e2 e w3 e3)
    with check_dependencies_facts(2) [of w] f
      setup_directories_facts(2) [of w1, THEN quiet_facts(5)]
      run_data_preparation_facts(2) [of w2]
    show ?thesis
      by (simp add: events_def)
  next
    case (completed ok w1 e1 w2 e2 prepared w3 e3)
    with check_dependencies_facts(2) [of w] f
      setup_directories_facts(2) [of w1, THEN quiet_facts(5)]
      run_data_preparation_facts(2) [of w2]
    show ?thesis
      by (simp add: events_def)
  qed
qed

text \<open>
  Claim C9. \<^verbatim>\<open>setup_directories\<close> never returns false, so the branch of \<^verbatim>\<open>main\<close> that
  logs "Setup failed: Could not create required directories." is never taken; when
  creating a directory fails, the exception of \<^verbatim>\<open>setup_directories\<close> is the outcome of
  \<^verbatim>\<open>main\<close>.
\<close>

theorem directory_failure_is_an_exception:
  "outcome (setup_directories w) \<noteq> Inr False
   \<and> Log ERROR ''Setup failed: Could not create required directories.'' \<notin> set (events (main w))
   \<and> (\<not> below_3_8 w \<and> outcome (check_dependencies w) = Inr ok
        \<and> outcome (setup_directories (after (check_dependencies w))) = Inl e
      \<longrightarrow> outcome (main w) = Inl e)"
proof -
  have a: "outcome (setup_directories w) \<noteq> Inr False"
    by (rule setup_directories_facts(1))
  have b: "Log ERROR ''Setup failed: Could not create required directories.'' \<notin> set (events (main w))"
    using main_without_directories_failure [of w] unfolding directories_failure_def .
  have c: "outcome (main w) = Inl e"
    if "\<not> below_3_8 w" "outcome (check_dependencies w) = Inr ok"
      "outcome (setup_directories (after (check_dependencies w))) = Inl e"
    using that(1)
  proof (cases rule: main_stages)
    case (dependencies e' w1 e1)
    with that(2) show ?thesis by (simp add: outcome_def)
  next
    case (directories ok' w1 e1 e' w2 e2)
    with that(3) show ?thesis by (simp add: outcome_def after_def)
  next
    case (preparation ok' w1 e1 w2 e2 e' w3 e3)
    with that(3) show ?thesis by (simp add: outcome_def after_def)
  next
    case (completed ok' w1 e1 w2 e2 prepared w3 e3)
    with that(3) show ?thesis by (simp add: outcome_def after_def)
  qed
  from a b c show ?thesis by blast
qed

theorem directory_failure_is_an_exception_witness:
  "\<not> below_3_8 blocked_world
   \<and> outcome (check_dependencies blocked_world) = Inr True
   \<and> outcome (setup_directories (after (check_dependencies blocked_world))) = Inl FileExistsError
   \<and> outcome (main blocked_world) = Inl FileExistsError"
proof -
  have h1: "\<not> below_3_8 blocked_world"
    by code_simp
  have h2: "outcome (check_dependencies blocked_world) = Inr True"
    by code_simp
  have h3: "outcome (setup_directories (after (check_dependencies blocked_world))) = Inl FileExistsError"
    by code_simp
  show ?thesis
    using h1 h2 h3 directory_failure_is_an_exception [of blocked_world True FileExistsError]
    by blast
qed

text \<open>
  What does hold of the exit code: it is 0 exactly when \<^verbatim>\<open>main\<close> returns true, and
  \<^verbatim>\<open>main\<close> returns false exactly when the interpreter is 3.6 or 3.7.
\<close>

lemma exit_code_zero_iff: "exit_code w = 0 \<longleftrightarrow> outcome (main w) = Inr True"
  by (cases "outcome (main w)") (simp_all add: exit_code_def)

lemma main_false_iff: "outcome (main w) = Inr False \<longleftrightarrow> below_3_8 w \<and> \<not> below_3_6 w"
proof (cases "below_3_8 w")
  case True
  then show ?thesis
    by (cases "below_3_6 w") (simp_all add: main_below_3_6 main_below_3_8 outcome_def)
next
  case False
  then have "outcome (main w) \<noteq> Inr False"
    by (cases rule: main_stages) (simp_all add: outcome_def)
  with False show ?thesis by simp
qed

text \<open>
  Claim C5, at the failing input. With \<^verbatim>\<open>model\<close> a regular file the directory creation
  fails, and \<^verbatim>\<open>main\<close> does not return false: \<^verbatim>\<open>os.makedirs\<close> raises
  \<^verbatim>\<open>FileExistsError\<close>, nothing catches it, "Setup failed: Could not create required
  directories." is not logged, and the interpreter ends with status 1 through the
  uncaught exception.
\<close>

theorem main_raises_on_directory_failure:
  "outcome (main blocked_world) = Inl FileExistsError
   \<and> outcome (main blocked_world) \<noteq> Inr False
   \<and> Log ERROR ''Setup failed: Could not create required directories.''
        \<notin> set (events (main blocked_world))
   \<and> exit_code blocked_world = 1"
proof -
  have a: "outcome (main blocked_world) = Inl FileExistsError"
    by code_simp
  have b: "Log ERROR ''Setup failed: Could not create required directories.''
        \<notin> set (events (main blocked_world))"
    using main_without_directories_failure [of blocked_world]
    unfolding directories_failure_def .
  from a b show ?thesis
    by (simp add: exit_code_def)
qed

section \<open>Failing child processes\<close>

text \<open>
  Claim C6. A child process that exits non-zero raises nothing in the function that
  started it: \<^verbatim>\<open>check_dependencies\<close> and \<^verbatim>\<open>run_data_preparation\<close> return false and
  their last event is an error record. When one of the three scripts of the cascade
  fails, \<^verbatim>\<open>main\<close> logs the warning "Data preparation incomplete. The application may
  not work properly.", returns true, and the exit code is 0.
\<close>

theorem failed_child_process_is_reported:
  "(failed_spawns (events (check_dependencies w)) \<noteq> [] \<longrightarrow>
      outcome (check_dependencies w) = Inr False
      \<and> is_error_log (last (events (check_dependencies w))))
   \<and> (failed_spawns (events (run_data_preparation w)) \<noteq> [] \<longrightarrow>
      outcome (run_data_preparation w) = Inr False
      \<and> is_error_log (last (events (run_data_preparation w))))
   \<and> (filter failed_script (events (main w)) \<noteq> [] \<longrightarrow>
      outcome (main w) = Inr True
      \<and> Log WARNING ''Data preparation incomplete. The application may not work properly.''
           \<in> set (events (main w))
      \<and> exit_code w = 0)"
proof -
  have a: "failed_spawns (events (check_dependencies w)) \<noteq> [] \<longrightarrow>
      outcome (check_dependencies w) = Inr False
      \<and> is_error_log (last (events (check_dependencies w)))"
    by (rule check_dependencies_facts(3))
  have b: "failed_spawns (events (run_data_preparation w)) \<noteq> [] \<longrightarrow>
      outcome (run_data_preparation w) = Inr False
      \<and> is_error_log (last (events (run_data_preparation w)))"
    using run_data_preparation_facts(1) [of w] by (auto simp add: reports_failure_def)
  have c: "outcome (main w) = Inr True
      \<and> Log WARNING ''Data preparation incomplete. The application may not work properly.''
           \<in> set (events (main w))
      \<and> exit_code w = 0"
    if failed: "filter failed_script (events (main w)) \<noteq> []"
  proof -
    have gate: "\<not> below_3_8 w"
    proof
      assume "below_3_8 w"
      from main_gate_events [OF this] failed show False
        by (auto simp add: failed_script_def)
    qed
    note f = frame_quiet [THEN quiet_facts(4)]
    from gate show ?thesis
    proof (cases rule: main_stages)
      case (dependencies e w1 e1)
      with failed check_dependencies_facts(1) [of w] f show ?thesis
        by (simp add: events_def)
    next
      case (directories ok w1 e1 e w2 e2)
      with failed check_dependencies_facts(1) [of w] f
        setup_directories_facts(2) [of w1, THEN quiet_facts(4)]
      show ?thesis
        by (simp add: events_def)
    next
      case (preparation ok w1 e1 w2 e2 e w3 e3)
      with failed check_dependencies_facts(1) [of w] f
        setup_directories_facts(2) [of w1, THEN quiet_facts(4)]
      have "filter failed_script e3 \<noteq> []"
        by (simp add: events_def)
      then have "failed_spawns e3 \<noteq> []"
        by (rule failed_script_failed_spawn)
      with run_data_preparation_facts(1) [of w2] preparation(3) show ?thesis
        by (simp add: reports_failure_def outcome_def events_def)
    next
      case (completed ok w1 e1 w2 e2 prepared w3 e3)
      with failed check_dependencies_facts(1) [of w] f
        setup_directories_facts(2) [of w1, THEN quiet_facts(4)]
      have "filter failed_script e3 \<noteq> []"
        by (simp add: events_def)
      then have "failed_spawns e3 \<noteq> []"
        by (rule failed_script_failed_spawn)
      with run_data_preparation_facts(1) [of w2] completed(3) have "\<not> prepared"
        by (auto simp add: reports_failure_def outcome_def events_def)
      with completed(4) show ?thesis
        by (simp add: outcome_def events_def exit_code_def preparation_warning_def)
    qed
  qed
  from a b c show ?thesis by blast
qed

theorem failed_child_process_is_reported_witness:
  "failed_spawns (events (check_dependencies failing_install_world)) \<noteq> []
   \<and> outcome (check_dependencies failing_install_world) = Inr False
   \<and> failed_spawns (events (run_data_preparation failing_training_world)) \<noteq> []
   \<and> outcome (run_data_preparation failing_training_world) = Inr False
   \<and> filter failed_script (events (main failing_training_world)) \<noteq> []
   \<and> outcome (main failing_training_world) = Inr True
   \<and> exit_code failing_training_world = 0"
proof -
  have h1: "failed_spawns (events (check_dependencies failing_install_world)) \<noteq> []"
    by code_simp
  have h2: "failed_spawns (events (run_data_preparation failing_training_world)) \<noteq> []"
    by code_simp
  have h3: "filter failed_script (events (main failing_training_world)) \<noteq> []"
    by code_simp
  from h1 failed_child_process_is_reported [of failing_install_world]
  have c1: "outcome (check_dependencies failing_install_world) = Inr False"
    by blast
  from h2 h3 failed_child_process_is_reported [of failing_training_world]
  have c2: "outcome (run_data_preparation failing_training_world) = Inr False
    \<and> outcome (main failing_training_world) = Inr True
    \<and> exit_code failing_training_world = 0"
    by blast
  from h1 h2 h3 c1 c2 show ?thesis by blast
qed

section \<open>The download decision\<close>

lemma folder_check_eq:
  "folder_check f d n =
     (if path_exists f d \<and> \<not> path_isdir f d then Inl NotADirectoryError
      else Inr (missing_or_short f d n))"
  by (simp add: folder_check_def listdir_def missing_or_short_def)

text \<open>
  Claim C2 fails as stated: with the marker absent and the training folders missing, an
  operator without credentials who answers "n" gets no download.
\<close>

theorem download_without_credentials_counterexample:
  "\<not> path_exists (fs declining_world) ''model/leprosy_classifier.pkl''
   \<and> \<not> path_exists (fs declining_world) positive_dir
   \<and> script_spawns (executable declining_world) ''prepare_kaggle_data.py''
        (events (run_data_preparation declining_world)) = []
   \<and> outcome (run_data_preparation declining_world) = Inr False"
  by code_simp

text \<open>
  Claim C2, amended. With the marker absent, the download script is started exactly
  when the folder check of the two training folders yields true and
  \<^verbatim>\<open>check_kaggle_credentials\<close> returns true. When each training path is absent or a
  directory, the folder check yields true exactly when one of the two folders is missing
  or holds fewer than 10 entries, so that two folders with at least 10 entries each skip
  the download. When the folder check yields true and \<^verbatim>\<open>check_kaggle_credentials\<close>
  returns false, \<^verbatim>\<open>run_data_preparation\<close> returns false.
\<close>

theorem download_iff_incomplete_and_credentials:
  assumes "\<not> path_exists (fs w) ''model/leprosy_classifier.pkl''"
  shows "(script_spawns (executable w) ''prepare_kaggle_data.py'' (events (run_data_preparation w)) \<noteq> []
          \<longleftrightarrow> outcome (datasets_incomplete w) = Inr True
              \<and> outcome (check_kaggle_credentials w) = Inr True)
     \<and> ((\<not> path_exists (fs w) positive_dir \<or> path_isdir (fs w) positive_dir)
         \<and> (\<not> path_exists (fs w) negative_dir \<or> path_isdir (fs w) negative_dir)
        \<longrightarrow> outcome (datasets_incomplete w) =
              Inr (missing_or_short (fs w) positive_dir 10 \<or> missing_or_short (fs w) negative_dir 10))
     \<and> (outcome (datasets_incomplete w) = Inr True
         \<and> outcome (check_kaggle_credentials w) = Inr False
        \<longrightarrow> outcome (run_data_preparation w) = Inr False)"
proof -
  have a: "script_spawns (executable w) ''prepare_kaggle_data.py'' (events (run_data_preparation w)) \<noteq> []
          \<longleftrightarrow> outcome (datasets_incomplete w) = Inr True
              \<and> outcome (check_kaggle_credentials w) = Inr True"
    using run_data_preparation_facts(3) [OF assms] download_stage_facts(4) [of w] by simp
  have b: "outcome (datasets_incomplete w) =
              Inr (missing_or_short (fs w) positive_dir 10 \<or> missing_or_short (fs w) negative_dir 10)"
    if "\<not> path_exists (fs w) positive_dir \<or> path_isdir (fs w) positive_dir"
      "\<not> path_exists (fs w) negative_dir \<or> path_isdir (fs w) negative_dir"
    using that
    by (auto simp add: datasets_incomplete_eq outcome_def folder_check_eq either_check_def)
  have c: "outcome (run_data_preparation w) = Inr False"
    if incomplete: "outcome (datasets_incomplete w) = Inr True"
      and declined: "outcome (check_kaggle_credentials w) = Inr False"
  proof -
    obtain rc wc evc where k: "check_kaggle_credentials w = (rc, wc, evc)"
      by (cases "check_kaggle_credentials w")
    with declined have rc: "rc = Inr False"
      by (simp add: outcome_def)
    have "download_stage w =
        (Inr False, wc,
         Log INFO ''Datasets not found or incomplete. Preparing to download...''
         # evc @ [Log ERROR ''Cannot prepare datasets without Kaggle credentials.''])"
      using incomplete k rc by (simp add: download_stage_eq)
    then show ?thesis
      by (simp add: run_data_preparation_eq [OF assms] outcome_def)
  qed
  from a b c show ?thesis by blast
qed

theorem download_iff_incomplete_and_credentials_witness:
  "\<not> path_exists (fs credentialed_world) ''model/leprosy_classifier.pkl''
   \<and> \<not> path_exists (fs credentialed_world) positive_dir
   \<and> \<not> path_exists (fs credentialed_world) negative_dir
   \<and> outcome (check_kaggle_credentials credentialed_world) = Inr True
   \<and> outcome (datasets_incomplete credentialed_world) = Inr True
   \<and> script_spawns (executable credentialed_world) ''prepare_kaggle_data.py''
        (events (run_data_preparation credentialed_world)) \<noteq> []
   \<and> \<not> path_exists (fs declining_world) ''model/leprosy_classifier.pkl''
   \<and> outcome (datasets_incomplete declining_world) = Inr True
   \<and> outcome (check_kaggle_credentials declining_world) = Inr False
   \<and> outcome (run_data_preparation declining_world) = Inr False"
proof -
  have h1: "\<not> path_exists (fs credentialed_world) ''model/leprosy_classifier.pkl''"
    by code_simp
  have h2: "\<not> path_exists (fs credentialed_world) positive_dir"
    by code_simp
  have h3: "\<not> path_exists (fs credentialed_world) negative_dir"
    by code_simp
  have h4: "outcome (check_kaggle_credentials credentialed_world) = Inr True"
    by code_simp
  have h5: "missing_or_short (fs credentialed_world) positive_dir 10"
    using h2 by (simp add: missing_or_short_def)
  from h2 h3 h5 download_iff_incomplete_and_credentials [OF h1]
  have c1: "outcome (datasets_incomplete credentialed_world) = Inr True"
    by simp
  with h4 download_iff_incomplete_and_credentials [OF h1]
  have c2: "script_spawns (executable credentialed_world) ''prepare_kaggle_data.py''
        (events (run_data_preparation credentialed_world)) \<noteq> []"
    by blast
  have d1: "\<not> path_exists (fs declining_world) ''model/leprosy_classifier.pkl''"
    by code_simp
  have d2: "outcome (datasets_incomplete declining_world) = Inr True"
    by code_simp
  have d3: "outcome (check_kaggle_credentials declining_world) = Inr False"
    by code_simp
  from d2 d3 download_iff_incomplete_and_credentials [OF d1]
  have c3: "outcome (run_data_preparation declining_world) = Inr False"
    by blast
  from h1 h2 h3 h4 c1 c2 d1 d2 d3 c3 show ?thesis by blast
qed

section \<open>Entering and persisting credentials\<close>

lemma enter_credentials_answer:
  assumes "stdin w = u # k # p # rest"
  shows "enter_credentials w =
     (if lower p = ''y'' then
        (case persist_credentials u k (entered w u k rest) of
           (Inl e, w2, evs) \<Rightarrow> (Inl e, w2, credential_prompts @ evs)
         | (Inr x, w2, evs) \<Rightarrow> (Inr True, w2, credential_prompts @ evs))
      else (Inr True, entered w u k rest, credential_prompts))"
proof -
  obtain r2 w2 evs where p: "persist_credentials u k (entered w u k rest) = (r2, w2, evs)"
    by (cases "persist_credentials u k (entered w u k rest)")
  then have p': "persist_credentials u k
      (w\<lparr>environ := (''KAGGLE_KEY'', k) # (''KAGGLE_USERNAME'', u) # environ w, stdin := rest\<rparr>)
      = (r2, w2, evs)"
    by (simp add: entered_def)
  show ?thesis
    using assms p p'
    by (cases r2)
       (simp_all add: enter_credentials_def andthen_input andthen_environ_set entered_def
         credential_prompts_def andthen_def [of "persist_credentials _ _"]
         andthen_def [of "if _ then _ else _"] ret_def)
qed

lemma enter_credentials_prompts:
  "Prompt ''Enter your Kaggle username: '' \<in> set (events (enter_credentials w))"
  by (cases "stdin w")
     (simp_all add: enter_credentials_def andthen_input events_def split: prod.splits)

lemma check_kaggle_credentials_interactive:
  assumes "asks_for_credentials w" "stdin w = s # rest"
  shows "check_kaggle_credentials w =
     (if lower s = ''y'' then
        (case enter_credentials (w\<lparr>stdin := rest\<rparr>) of
           (r, w2, evs) \<Rightarrow> (r, w2, setup_prompt @ evs))
      else (Inr False, w\<lparr>stdin := rest\<rparr>,
            setup_prompt @ [Log WARNING ''Continuing without Kaggle credentials.'']))"
  using assms
  by (auto simp add: check_kaggle_credentials_def asks_for_credentials_def environ_get_def
      os_path_exists_def andthen_input setup_prompt_def ret_def split: prod.splits)

text \<open>
  Claim C7. When the credential check asks (nothing in the environment, no credential
  file), the operator agrees, enters a username and a key and agrees to persist them,
  and the check returns, then \<^verbatim>\<open>~/.kaggle/kaggle.json\<close> is a regular file whose content is
  the JSON object with the entered username under \<^verbatim>\<open>username\<close> and the entered key under
  \<^verbatim>\<open>key\<close>, and whose permission bits are 0600 (decimal 384); the check returns true.
\<close>

theorem persisted_credentials_file:
  assumes "asks_for_credentials w"
    and "stdin w = a # u # k # p # rest"
    and "lower a = ''y''" and "lower p = ''y''"
    and "outcome (check_kaggle_credentials w) = Inr b"
  shows "map_of (fs (after (check_kaggle_credentials w))) (expanduser ''~/.kaggle/kaggle.json'' w) =
           Some (File (JsonDoc (JObject [(''username'', JString u), (''key'', JString k)])) 384)
         \<and> path_exists (fs (after (check_kaggle_credentials w))) (expanduser ''~/.kaggle/kaggle.json'' w)
         \<and> b"
proof -
  let ?w1 = "entered (w\<lparr>stdin := u # k # p # rest\<rparr>) u k rest"
  have c: "check_kaggle_credentials w =
      (case persist_credentials u k ?w1 of
           (Inl e, w2, evs) \<Rightarrow> (Inl e, w2, setup_prompt @ credential_prompts @ evs)
         | (Inr x, w2, evs) \<Rightarrow> (Inr True, w2, setup_prompt @ credential_prompts @ evs))"
    using assms(3,4)
    by (simp add: check_kaggle_credentials_interactive [OF assms(1,2)]
        enter_credentials_answer [of "w\<lparr>stdin := u # k # p # rest\<rparr>" u k p rest]
        split: prod.splits sum.splits)
  from persist_credentials_cases [of u k ?w1]
  show ?thesis
  proof
    assume "\<exists>f1. persist_credentials u k ?w1 =
            (Inr (), ?w1\<lparr>fs := f1\<rparr>, [Log INFO ''Kaggle credentials saved to ~/.kaggle/kaggle.json''])
          \<and> map_of f1 (expanduser ''~/.kaggle/kaggle.json'' ?w1) =
              Some (File (JsonDoc (JObject [(''username'', JString u), (''key'', JString k)])) 384)"
    then obtain f1 where p: "persist_credentials u k ?w1 =
            (Inr (), ?w1\<lparr>fs := f1\<rparr>, [Log INFO ''Kaggle credentials saved to ~/.kaggle/kaggle.json''])"
      and f: "map_of f1 (expanduser ''~/.kaggle/kaggle.json'' ?w1) =
              Some (File (JsonDoc (JObject [(''username'', JString u), (''key'', JString k)])) 384)"
      by blast
    have e: "expanduser ''~/.kaggle/kaggle.json'' ?w1 = expanduser ''~/.kaggle/kaggle.json'' w"
      by (rule expanduser_cong) (simp_all add: entered_def)
    from c p f e assms(5) show ?thesis
      by (simp add: after_def outcome_def path_exists_def)
  next
    assume "\<exists>e f1. persist_credentials u k ?w1 = (Inl e, ?w1\<lparr>fs := f1\<rparr>, [])"
    with c assms(5) show ?thesis
      by (auto simp add: outcome_def)
  qed
qed

theorem persisted_credentials_file_witness:
  "asks_for_credentials persisting_world
   \<and> stdin persisting_world = ''y'' # ''bob'' # ''k3y'' # ''y'' # []
   \<and> lower ''y'' = ''y''
   \<and> outcome (check_kaggle_credentials persisting_world) = Inr True
   \<and> expanduser ''~/.kaggle/kaggle.json'' persisting_world = ''/home/u/.kaggle/kaggle.json''
   \<and> map_of (fs (after (check_kaggle_credentials persisting_world))) ''/home/u/.kaggle/kaggle.json'' =
        Some (File (JsonDoc (JObject [(''username'', JString ''bob''), (''key'', JString ''k3y'')])) 384)"
proof -
  have h1: "asks_for_credentials persisting_world"
    by code_simp
  have h2: "stdin persisting_world = ''y'' # ''bob'' # ''k3y'' # ''y'' # []"
    by code_simp
  have h3: "lower ''y'' = ''y''"
    by (simp add: lower_y)
  have h4: "outcome (check_kaggle_credentials persisting_world) = Inr True"
    by code_simp
  have h5: "expanduser ''~/.kaggle/kaggle.json'' persisting_world = ''/home/u/.kaggle/kaggle.json''"
    by code_simp
  from persisted_credentials_file [OF h1 h2 h3 h3 h4] h5
  have "map_of (fs (after (check_kaggle_credentials persisting_world))) ''/home/u/.kaggle/kaggle.json'' =
        Some (File (JsonDoc (JObject [(''username'', JString ''bob''), (''key'', JString ''k3y'')])) 384)"
    by simp
  with h1 h2 h3 h4 h5 show ?thesis by blast
qed

section \<open>Answers to the yes/no prompts\<close>

lemma spawns_append: "spawns (xs @ ys) = spawns xs @ spawns ys"
  by (simp add: spawns_def)

lemma check_dependencies_answer:
  assumes "\<exists>p \<in> set required_packages. replace CHR ''-'' CHR ''_'' p \<notin> set (importable w)"
    and "stdin w = s # rest"
  shows "if s \<in> {''y'', ''Y''} then spawns (events (check_dependencies w)) \<noteq> []
         else spawns (events (check_dependencies w)) = []
              \<and> outcome (check_dependencies w) = Inr False"
proof -
  let ?ms = "filter (\<lambda>p. replace CHR ''-'' CHR ''_'' p \<notin> set (importable w)) required_packages"
  from assms(1) have ms: "?ms \<noteq> []"
    by (simp add: filter_empty_conv)
  note q = quiet_facts(3) [OF probe_events_quiet [of w required_packages]]
  obtain r w1 evs where i: "install_missing ?ms w = (r, w1, evs)"
    by (cases "install_missing ?ms w")
  then have e: "spawns (events (check_dependencies w)) = spawns evs"
    "outcome (check_dependencies w) = r"
    using q by (simp_all add: check_dependencies_eq events_def outcome_def spawns_append)
  from i show ?thesis
    unfolding e install_missing_answer [OF ms assms(2)]
    by (auto simp add: lower_y spawns_def split: if_splits)
qed

lemma check_kaggle_credentials_answer:
  assumes "asks_for_credentials w" "stdin w = s # rest"
  shows "if s \<in> {''y'', ''Y''}
         then Prompt ''Enter your Kaggle username: '' \<in> set (events (check_kaggle_credentials w))
         else Prompt ''Enter your Kaggle username: '' \<notin> set (events (check_kaggle_credentials w))
              \<and> outcome (check_kaggle_credentials w) = Inr False"
proof (cases "lower s = ''y''")
  case True
  obtain r w2 evs where e: "enter_credentials (w\<lparr>stdin := rest\<rparr>) = (r, w2, evs)"
    by (cases "enter_credentials (w\<lparr>stdin := rest\<rparr>)")
  with enter_credentials_prompts [of "w\<lparr>stdin := rest\<rparr>"]
  have "Prompt ''Enter your Kaggle username: '' \<in> set evs"
    by (simp add: events_def)
  with True e show ?thesis
    by (simp add: check_kaggle_credentials_interactive [OF assms] events_def lower_y)
next
  case False
  then show ?thesis
    by (simp add: check_kaggle_credentials_interactive [OF assms] events_def outcome_def lower_y
        setup_prompt_def)
qed

lemma persist_answer:
  assumes "asks_for_credentials w" "stdin w = a # u # k # p # rest" "a \<in> {''y'', ''Y''}"
  shows "if p \<in> {''y'', ''Y''}
         then check_kaggle_credentials w \<noteq>
                (Inr True, entered w u k rest, setup_prompt @ credential_prompts)
         else check_kaggle_credentials w =
                (Inr True, entered w u k rest, setup_prompt @ credential_prompts)"
proof -
  let ?w1 = "entered (w\<lparr>stdin := u # k # p # rest\<rparr>) u k rest"
  have w1: "?w1 = entered w u k rest"
    by (simp add: entered_def)
  have a: "lower a = ''y''"
    using assms(3) by (simp add: lower_y)
  show ?thesis
  proof (cases "lower p = ''y''")
    case False
    with a show ?thesis
      by (simp add: check_kaggle_credentials_interactive [OF assms(1,2)]
          enter_credentials_answer [of "w\<lparr>stdin := u # k # p # rest\<rparr>" u k p rest] w1 lower_y)
  next
    case True
    have c: "check_kaggle_credentials w =
      (case persist_credentials u k (entered w u k rest) of
           (Inl e, w2, evs) \<Rightarrow> (Inl e, w2, setup_prompt @ credential_prompts @ evs)
         | (Inr x, w2, evs) \<Rightarrow> (Inr True, w2, setup_prompt @ credential_prompts @ evs))"
      using a True
      by (simp add: check_kaggle_credentials_interactive [OF assms(1,2)]
          enter_credentials_answer [of "w\<lparr>stdin := u # k # p # rest\<rparr>" u k p rest] w1
          split: prod.splits sum.splits)
    from persist_credentials_cases [of u k "entered w u k rest"] c True show ?thesis
      by (auto simp add: lower_y)
  qed
qed

text \<open>
  Claim C8 fails as stated: the answer "Y" is not "y", and it takes the affirmative
  branch of the install prompt (the installer is started).
\<close>

theorem capital_y_is_yes_counterexample:
  "''Y'' \<noteq> ''y''
   \<and> stdin uppercase_world = [''Y'']
   \<and> spawns (events (check_dependencies uppercase_world)) =
        [Spawn ([''/usr/bin/python3'', ''-m'', ''pip'', ''install''] @ required_packages) 0]
   \<and> outcome (check_dependencies uppercase_world) = Inr True"
  by code_simp

text \<open>
  Claim C8, amended. A response takes the affirmative branch exactly when lowering it
  gives "y", that is, when it is "y" or "Y"; every other response is treated as "no".
  For the install prompt (some package missing): the installer is started for "y" and
  "Y", otherwise nothing is started and \<^verbatim>\<open>check_dependencies\<close> returns false. For the
  credential-setup prompt: the username is asked for on "y" and "Y", otherwise it is not
  and \<^verbatim>\<open>check_kaggle_credentials\<close> returns false. For the persistence prompt: on every
  response but "y" and "Y" the check returns true with the file system untouched and
  nothing shown after the prompt; on "y" and "Y" it does not.
\<close>

theorem only_y_and_capital_y_are_yes:
  "(lower s = ''y'' \<longleftrightarrow> s \<in> {''y'', ''Y''})
   \<and> ((\<exists>p \<in> set required_packages. replace CHR ''-'' CHR ''_'' p \<notin> set (importable w))
        \<and> stdin w = s # rest \<longrightarrow>
       (if s \<in> {''y'', ''Y''} then spawns (events (check_dependencies w)) \<noteq> []
        else spawns (events (check_dependencies w)) = []
             \<and> outcome (check_dependencies w) = Inr False))
   \<and> (asks_for_credentials w \<and> stdin w = s # rest \<longrightarrow>
       (if s \<in> {''y'', ''Y''}
        then Prompt ''Enter your Kaggle username: '' \<in> set (events (check_kaggle_credentials w))
        else Prompt ''Enter your Kaggle username: '' \<notin> set (events (check_kaggle_credentials w))
             \<and> outcome (check_kaggle_credentials w) = Inr False))
   \<and> (asks_for_credentials w \<and> stdin w = a # u # k # s # rest \<and> a \<in> {''y'', ''Y''} \<longrightarrow>
       (if s \<in> {''y'', ''Y''}
        then check_kaggle_credentials w \<noteq>
               (Inr True, entered w u k rest, setup_prompt @ credential_prompts)
        else check_kaggle_credentials w =
               (Inr True, entered w u k rest, setup_prompt @ credential_prompts)))"
  using lower_y [of s] check_dependencies_answer [of w s rest]
    check_kaggle_credentials_answer [of w s rest] persist_answer [of w a u k s rest]
  by blast

theorem only_y_and_capital_y_are_yes_witness:
  "''flask'' \<in> set required_packages
   \<and> replace CHR ''-'' CHR ''_'' ''flask'' \<notin> set (importable uppercase_world)
   \<and> stdin uppercase_world = ''Y'' # []
   \<and> spawns (events (check_dependencies uppercase_world)) \<noteq> []
   \<and> asks_for_credentials not_persisting_world
   \<and> stdin not_persisting_world = ''Y'' # ''bob'' # ''k3y'' # ''yes'' # []
   \<and> Prompt ''Enter your Kaggle username: '' \<in> set (events (check_kaggle_credentials not_persisting_world))
   \<and> check_kaggle_credentials not_persisting_world =
        (Inr True, entered not_persisting_world ''bob'' ''k3y'' [], setup_prompt @ credential_prompts)
   \<and> lower ''yes'' \<noteq> ''y''"
proof -
  have m: "''flask'' \<in> set required_packages"
    "replace CHR ''-'' CHR ''_'' ''flask'' \<notin> set (importable uppercase_world)"
    by code_simp+
  then have h1: "\<exists>p \<in> set required_packages. replace CHR ''-'' CHR ''_'' p \<notin> set (importable uppercase_world)"
    by blast
  have h2: "stdin uppercase_world = ''Y'' # []"
    by code_simp
  have h3: "asks_for_credentials not_persisting_world"
    by code_simp
  have h4: "stdin not_persisting_world = ''Y'' # ''bob'' # ''k3y'' # ''yes'' # []"
    by code_simp
  from h1 h2 only_y_and_capital_y_are_yes [of "''Y''" uppercase_world "[]"]
  have c1: "spawns (events (check_dependencies uppercase_world)) \<noteq> []"
    by simp
  from h3 h4 only_y_and_capital_y_are_yes [of "''Y''" not_persisting_world "[''bob'', ''k3y'', ''yes'']"]
  have c2: "Prompt ''Enter your Kaggle username: '' \<in> set (events (check_kaggle_credentials not_persisting_world))"
    by simp
  from h3 h4 only_y_and_capital_y_are_yes [of "''yes''" not_persisting_world "[]" "''Y''" "''bob''" "''k3y''"]
  have c3: "check_kaggle_credentials not_persisting_world =
        (Inr True, entered not_persisting_world ''bob'' ''k3y'' [], setup_prompt @ credential_prompts)"
    and c4: "lower ''yes'' \<noteq> ''y''"
    by simp_all
  from m h2 h3 h4 c1 c2 c3 c4 show ?thesis by blast
qed

end
